theory Spec2Isabelle
  imports Complex_Main
begin

section \<open>Data model of the FIFO tax engine\<close>

text \<open>
  The engine of \<^verbatim>\<open>tax_calculations.py\<close> works on rows of a data frame with the columns
  date, symbol, type, quantity and price. A row is a record. Dates are timestamps, counted
  in nanoseconds; quantities, prices and money amounts are the exact rationals that the
  floating-point numbers of the source stand for, so every statement below is one of exact
  arithmetic. The type column is a string: the engine compares its lower-cased text with
  \<^verbatim>\<open>'buy'\<close> and \<^verbatim>\<open>'sell'\<close>.
\<close>

record transaction =
  t_date :: int
  t_symbol :: string
  t_type :: string
  t_quantity :: rat
  t_price :: rat

text \<open>The dictionary \<^verbatim>\<open>lot\<close> built in \<^verbatim>\<open>_calculate_symbol_fifo\<close>.\<close>

record lot =
  l_symbol :: string
  l_date :: int
  l_quantity :: rat
  l_price :: rat
  l_cost_basis :: rat

text \<open>The two values of \<^verbatim>\<open>term_type\<close>: the strings 'Short-term' and 'Long-term'.\<close>

datatype term_type = Short_term | Long_term

text \<open>One entry of \<^verbatim>\<open>transactions_detail\<close>, appended in \<^verbatim>\<open>_process_sale\<close>.\<close>

record match_record =
  m_symbol :: string
  m_sale_date :: int
  m_purchase_date :: int
  m_quantity :: rat
  m_proceeds :: rat
  m_cost_basis :: rat
  m_gain_loss :: rat
  m_holding_period_days :: int
  m_term_type :: term_type

text \<open>The dictionary \<^verbatim>\<open>results\<close> of \<^verbatim>\<open>_process_sale\<close>.\<close>

record sale_results =
  s_short_term_gain :: rat
  s_long_term_gain :: rat
  s_transactions_detail :: "match_record list"

text \<open>One entry of \<^verbatim>\<open>remaining_holdings\<close>.\<close>

record holding =
  h_symbol :: string
  h_quantity :: rat
  h_avg_cost :: rat
  h_total_cost_basis :: rat
  h_purchase_date :: int

text \<open>The dictionary \<^verbatim>\<open>results\<close> of \<^verbatim>\<open>_calculate_symbol_fifo\<close>.\<close>

record symbol_results =
  y_short_term_gain :: rat
  y_long_term_gain :: rat
  y_transactions_detail :: "match_record list"
  y_remaining_holdings :: "holding list"

text \<open>The dictionary \<^verbatim>\<open>results\<close> of \<^verbatim>\<open>calculate_fifo_taxes\<close>.\<close>

record tax_report =
  short_term_gain :: rat
  long_term_gain :: rat
  estimated_tax :: rat
  transactions_detail :: "match_record list"
  holdings_summary :: "holding list"

section \<open>Constants of \<^verbatim>\<open>TaxCalculations.__init__\<close>\<close>

definition short_term_tax_rate :: rat where
  "short_term_tax_rate = 22 / 100"

definition long_term_tax_rate :: rat where
  "long_term_tax_rate = 15 / 100"

definition long_term_threshold_days :: int where
  "long_term_threshold_days = 365"

section \<open>Helpers standing for library operations\<close>

text \<open>
  \<^verbatim>\<open>str.lower\<close> on the characters of a byte string: the letters A to Z are mapped to a to z,
  every other character is kept.
\<close>

definition lower_char :: "char \<Rightarrow> char" where
  "lower_char c =
     (case map_of (zip ''ABCDEFGHIJKLMNOPQRSTUVWXYZ'' ''abcdefghijklmnopqrstuvwxyz'') c of
        Some d \<Rightarrow> d
      | None \<Rightarrow> c)"

definition lower :: "string \<Rightarrow> string" where
  "lower s = map lower_char s"

text \<open>
  The attribute \<^verbatim>\<open>days\<close> of a difference of two timestamps: the whole days in it, rounded
  towards minus infinity, as a timedelta normalises a negative difference.
\<close>

definition ns_per_day :: int where
  "ns_per_day = 86400000000000"

definition days :: "int \<Rightarrow> int" where
  "days delta = delta div ns_per_day"

text \<open>\<^verbatim>\<open>Series.unique\<close>: the distinct values in the order of their first appearance.\<close>

fun unique :: "'a list \<Rightarrow> 'a list" where
  "unique [] = []"
| "unique (x # xs) = x # unique (filter (\<lambda>y. y \<noteq> x) xs)"

section \<open>\<^verbatim>\<open>_process_sale\<close>\<close>

text \<open>
  The body of the loop after the branch on the lot: proceeds, gain or loss, holding
  period, classification, and the entry appended to \<^verbatim>\<open>transactions_detail\<close>.
\<close>

definition make_match ::
  "string \<Rightarrow> int \<Rightarrow> rat \<Rightarrow> lot \<Rightarrow> rat \<Rightarrow> rat \<Rightarrow> match_record" where
  "make_match symbol sale_date sale_price oldest_lot quantity_sold cost_basis =
     (let proceeds = quantity_sold * sale_price;
          gain_loss = proceeds - cost_basis;
          holding_period = days (sale_date - l_date oldest_lot);
          is_long_term = (holding_period \<ge> long_term_threshold_days)
      in \<lparr>m_symbol = symbol,
          m_sale_date = sale_date,
          m_purchase_date = l_date oldest_lot,
          m_quantity = quantity_sold,
          m_proceeds = proceeds,
          m_cost_basis = cost_basis,
          m_gain_loss = gain_loss,
          m_holding_period_days = holding_period,
          m_term_type = (if is_long_term then Long_term else Short_term)\<rparr>)"

definition add_match :: "match_record \<Rightarrow> sale_results \<Rightarrow> sale_results" where
  "add_match m results =
     (if m_term_type m = Long_term
      then results\<lparr>s_long_term_gain := s_long_term_gain results + m_gain_loss m,
                   s_transactions_detail := s_transactions_detail results @ [m]\<rparr>
      else results\<lparr>s_short_term_gain := s_short_term_gain results + m_gain_loss m,
                   s_transactions_detail := s_transactions_detail results @ [m]\<rparr>)"

text \<open>
  The loop \<^verbatim>\<open>while remaining_to_sell > 0 and fifo_queue\<close>. The queue is the list of lots,
  oldest first; the source changes it in place, the model returns it beside the results.
  In the partial branch the divisor \<^verbatim>\<open>oldest_lot['quantity']\<close> is greater than
  \<^verbatim>\<open>remaining_to_sell\<close>, which is positive, so the division never fails. The source
  subtracts and compares in floating point; a statement below that depends on how the
  tests of the loop come out has them as its hypotheses, or is said to be one of exact
  arithmetic.
\<close>

function sale_loop ::
  "string \<Rightarrow> int \<Rightarrow> rat \<Rightarrow> lot list \<Rightarrow> rat \<Rightarrow> sale_results \<Rightarrow> sale_results \<times> lot list" where
  "sale_loop symbol sale_date sale_price [] remaining_to_sell results = (results, [])"
| "sale_loop symbol sale_date sale_price (oldest_lot # rest) remaining_to_sell results =
     (if remaining_to_sell > 0 then
        if l_quantity oldest_lot \<le> remaining_to_sell then
          sale_loop symbol sale_date sale_price rest
            (remaining_to_sell - l_quantity oldest_lot)
            (add_match
               (make_match symbol sale_date sale_price oldest_lot
                  (l_quantity oldest_lot) (l_cost_basis oldest_lot))
               results)
        else
          sale_loop symbol sale_date sale_price
            (oldest_lot
               \<lparr>l_quantity := l_quantity oldest_lot - remaining_to_sell,
                l_cost_basis := l_cost_basis oldest_lot
                  - (l_cost_basis oldest_lot / l_quantity oldest_lot) * remaining_to_sell\<rparr>
             # rest)
            (remaining_to_sell - remaining_to_sell)
            (add_match
               (make_match symbol sale_date sale_price oldest_lot
                  remaining_to_sell
                  ((l_cost_basis oldest_lot / l_quantity oldest_lot) * remaining_to_sell))
               results)
      else (results, oldest_lot # rest))"
  by pat_completeness auto
termination
  by (relation "measure (\<lambda>(symbol, sale_date, sale_price, fifo_queue, remaining_to_sell, results).
        2 * length fifo_queue + (if remaining_to_sell > 0 then 1 else 0))") auto

definition no_sale :: sale_results where
  "no_sale = \<lparr>s_short_term_gain = 0, s_long_term_gain = 0, s_transactions_detail = []\<rparr>"

definition process_sale ::
  "lot list \<Rightarrow> string \<Rightarrow> int \<Rightarrow> rat \<Rightarrow> rat \<Rightarrow> sale_results \<times> lot list" where
  "process_sale fifo_queue symbol sale_date sale_quantity sale_price =
     sale_loop symbol sale_date sale_price fifo_queue sale_quantity no_sale"

section \<open>\<^verbatim>\<open>_calculate_symbol_fifo\<close>\<close>

definition new_lot :: "string \<Rightarrow> transaction \<Rightarrow> lot" where
  "new_lot symbol transaction =
     \<lparr>l_symbol = symbol,
      l_date = t_date transaction,
      l_quantity = t_quantity transaction,
      l_price = t_price transaction,
      l_cost_basis = t_quantity transaction * t_price transaction\<rparr>"

definition add_sale :: "sale_results \<Rightarrow> symbol_results \<Rightarrow> symbol_results" where
  "add_sale sale_results results =
     results\<lparr>y_short_term_gain := y_short_term_gain results + s_short_term_gain sale_results,
             y_long_term_gain := y_long_term_gain results + s_long_term_gain sale_results,
             y_transactions_detail :=
               y_transactions_detail results @ s_transactions_detail sale_results\<rparr>"

text \<open>
  The loop over the rows of the symbol's frame: a buy appends a lot, a sell is processed
  against the queue, a row of any other type is passed over.
\<close>

fun symbol_loop ::
  "string \<Rightarrow> transaction list \<Rightarrow> lot list \<Rightarrow> symbol_results \<Rightarrow> symbol_results \<times> lot list" where
  "symbol_loop symbol [] fifo_queue results = (results, fifo_queue)"
| "symbol_loop symbol (transaction # rows) fifo_queue results =
     (if lower (t_type transaction) = ''buy'' then
        symbol_loop symbol rows (fifo_queue @ [new_lot symbol transaction]) results
      else if lower (t_type transaction) = ''sell'' then
        (case process_sale fifo_queue symbol (t_date transaction)
                (t_quantity transaction) (t_price transaction) of
           (sale_results, fifo_queue') \<Rightarrow>
             symbol_loop symbol rows fifo_queue' (add_sale sale_results results))
      else symbol_loop symbol rows fifo_queue results)"

definition to_holding :: "lot \<Rightarrow> holding" where
  "to_holding lot =
     \<lparr>h_symbol = l_symbol lot,
      h_quantity = l_quantity lot,
      h_avg_cost = l_price lot,
      h_total_cost_basis = l_cost_basis lot,
      h_purchase_date = l_date lot\<rparr>"

definition remaining_holdings :: "lot list \<Rightarrow> holding list" where
  "remaining_holdings fifo_queue =
     map to_holding (filter (\<lambda>lot. l_quantity lot > 0) fifo_queue)"

definition no_symbol_results :: symbol_results where
  "no_symbol_results =
     \<lparr>y_short_term_gain = 0, y_long_term_gain = 0,
      y_transactions_detail = [], y_remaining_holdings = []\<rparr>"

definition calculate_symbol_fifo :: "string \<Rightarrow> transaction list \<Rightarrow> symbol_results" where
  "calculate_symbol_fifo symbol symbol_df =
     (case symbol_loop symbol symbol_df [] no_symbol_results of
        (results, fifo_queue) \<Rightarrow>
          results\<lparr>y_remaining_holdings := remaining_holdings fifo_queue\<rparr>)"

section \<open>\<^verbatim>\<open>calculate_fifo_taxes\<close>\<close>

text \<open>
  \<^verbatim>\<open>sort_values('date')\<close> is the library's sort of a frame by its date column, called with
  the default algorithm. It is a parameter of the model: what a theorem needs of it is
  written as a hypothesis of that theorem.
\<close>

type_synonym sort_values = "transaction list \<Rightarrow> transaction list"

definition add_symbol :: "symbol_results \<Rightarrow> tax_report \<Rightarrow> tax_report" where
  "add_symbol symbol_results results =
     results\<lparr>short_term_gain := short_term_gain results + y_short_term_gain symbol_results,
             long_term_gain := long_term_gain results + y_long_term_gain symbol_results,
             transactions_detail :=
               transactions_detail results @ y_transactions_detail symbol_results,
             holdings_summary :=
               (if y_remaining_holdings symbol_results \<noteq> []
                then holdings_summary results @ y_remaining_holdings symbol_results
                else holdings_summary results)\<rparr>"

fun symbols_loop ::
  "sort_values \<Rightarrow> transaction list \<Rightarrow> string list \<Rightarrow> tax_report \<Rightarrow> tax_report" where
  "symbols_loop sort_by_date df [] results = results"
| "symbols_loop sort_by_date df (symbol # symbols) results =
     (let symbol_df = sort_by_date (filter (\<lambda>t. t_symbol t = symbol) df);
          symbol_results = calculate_symbol_fifo symbol symbol_df
      in symbols_loop sort_by_date df symbols (add_symbol symbol_results results))"

definition no_report :: tax_report where
  "no_report =
     \<lparr>short_term_gain = 0, long_term_gain = 0, estimated_tax = 0,
      transactions_detail = [], holdings_summary = []\<rparr>"

definition calculate_fifo_taxes :: "sort_values \<Rightarrow> transaction list \<Rightarrow> tax_report" where
  "calculate_fifo_taxes sort_by_date df =
     (let symbols = unique (map t_symbol df);
          results = symbols_loop sort_by_date df symbols no_report;
          short_term_tax = max 0 (short_term_gain results) * short_term_tax_rate;
          long_term_tax = max 0 (long_term_gain results) * long_term_tax_rate
      in results\<lparr>estimated_tax := short_term_tax + long_term_tax\<rparr>)"

section \<open>\<^verbatim>\<open>CryptoTaxCalculator\<close>\<close>

definition valid_type :: "transaction \<Rightarrow> bool" where
  "valid_type t = (lower (t_type t) \<in> set [''buy'', ''sell''])"

definition positive_values :: "transaction \<Rightarrow> bool" where
  "positive_values t = (t_quantity t > 0 \<and> t_price t > 0)"

text \<open>
  \<^verbatim>\<open>_validate_input\<close> on a frame that has the five columns. The two filters assign to the
  local name \<^verbatim>\<open>df\<close> of \<^verbatim>\<open>_validate_input\<close>; the function returns a truth value only.
\<close>

definition validate_input :: "transaction list \<Rightarrow> bool" where
  "validate_input df =
     (if df = [] then False
      else
        let invalid_types = unique (map t_type (filter (\<lambda>t. \<not> valid_type t) df));
            df1 = (if length invalid_types > 0 then filter valid_type df else df);
            df2 = (if list_ex (\<lambda>t. t_quantity t \<le> 0) df1 \<or> list_ex (\<lambda>t. t_price t \<le> 0) df1
                   then filter positive_values df1 else df1)
        in if df2 = [] then False else True)"

text \<open>
  The result of \<^verbatim>\<open>calculate_taxes\<close>: the report of \<^verbatim>\<open>calculate_fifo_taxes\<close> with the
  metadata added to it. The time of the calculation is left out.
\<close>

record tax_result =
  report :: tax_report
  total_transactions :: nat
  tax_method :: string

definition calculate_taxes :: "sort_values \<Rightarrow> transaction list \<Rightarrow> tax_result option" where
  "calculate_taxes sort_by_date df =
     (if \<not> validate_input df then None
      else Some \<lparr>report = calculate_fifo_taxes sort_by_date df,
                 total_transactions = length df,
                 tax_method = ''FIFO''\<rparr>)"

section \<open>The Normalizer: \<^verbatim>\<open>csv_parser.py\<close>\<close>

text \<open>
  The frame that \<^verbatim>\<open>pd.read_csv\<close> returns: the names of the columns and the rows, each row
  holding one cell per column. A cell is the text that \<^verbatim>\<open>astype(str)\<close> gives for it, or
  nothing for a missing value (NaN).
\<close>

type_synonym cell = "string option"

record raw_table =
  tb_columns :: "string list"
  tb_rows :: "cell list list"

text \<open>
  The ways in which \<^verbatim>\<open>parse_csv\<close> returns \<^verbatim>\<open>None\<close>, by the message it shows: the file is
  empty, required columns are missing, the date column could not be parsed, or an
  exception was caught.
\<close>

datatype parse_error = Empty_file | Missing_columns "string list" | Date_unparsed | Exception

text \<open>
  The operations of the library that the Normalizer calls on the values of a column:
  \<^verbatim>\<open>pd.to_numeric(errors='coerce')\<close> on one text, \<^verbatim>\<open>pd.to_datetime\<close> with a format on one
  text (nothing when the text does not match the format), \<^verbatim>\<open>pd.to_datetime(errors='coerce')\<close>
  on a column (nothing when it raises), and \<^verbatim>\<open>sort_values('date')\<close>. They are parameters
  of the model.
\<close>

record library =
  lib_to_numeric :: "string \<Rightarrow> rat option"
  lib_strptime :: "string \<Rightarrow> string \<Rightarrow> int option"
  lib_to_datetime :: "string list \<Rightarrow> int option list option"
  lib_sort_values :: "transaction list \<Rightarrow> transaction list"

definition common_date_formats :: "string list" where
  "common_date_formats =
     [''%Y-%m-%d %H:%M:%S'',
      ''%Y-%m-%d %H:%M:%S.%f'',
      ''%Y-%m-%d'',
      ''%m/%d/%Y %H:%M:%S'',
      ''%m/%d/%Y'',
      ''%d/%m/%Y %H:%M:%S'',
      ''%d/%m/%Y'',
      ''%Y-%m-%dT%H:%M:%S.%fZ'',
      ''%Y-%m-%dT%H:%M:%SZ'',
      ''%Y-%m-%dT%H:%M:%S'']"

text \<open>\<^verbatim>\<open>str.strip\<close> and \<^verbatim>\<open>str.upper\<close> on the characters of a byte string.\<close>

definition is_space :: "char \<Rightarrow> bool" where
  "is_space c \<longleftrightarrow>
     c \<in> set [CHR 0x09, CHR 0x0A, CHR 0x0B, CHR 0x0C, CHR 0x0D,
              CHR 0x1C, CHR 0x1D, CHR 0x1E, CHR 0x1F, CHR 0x20]"

definition strip :: "string \<Rightarrow> string" where
  "strip s = rev (dropWhile is_space (rev (dropWhile is_space s)))"

definition upper_char :: "char \<Rightarrow> char" where
  "upper_char c =
     (case map_of (zip ''abcdefghijklmnopqrstuvwxyz'' ''ABCDEFGHIJKLMNOPQRSTUVWXYZ'') c of
        Some d \<Rightarrow> d
      | None \<Rightarrow> c)"

definition upper :: "string \<Rightarrow> string" where
  "upper s = map upper_char s"

definition astype_str :: "cell \<Rightarrow> string" where
  "astype_str c = (case c of None \<Rightarrow> ''nan'' | Some s \<Rightarrow> s)"

subsection \<open>\<^verbatim>\<open>_standardize_columns\<close> and \<^verbatim>\<open>_validate_columns\<close>\<close>

definition column_mappings :: "(string \<times> string) list" where
  "column_mappings =
     [(''timestamp'', ''date''), (''time'', ''date''), (''datetime'', ''date''),
      (''created_at'', ''date''), (''trade_time'', ''date''), (''order_time'', ''date''),
      (''coin'', ''symbol''), (''asset'', ''symbol''), (''currency'', ''symbol''),
      (''pair'', ''symbol''), (''base_asset'', ''symbol''), (''product'', ''symbol''),
      (''side'', ''type''), (''transaction_type'', ''type''), (''order_type'', ''type''),
      (''trade_type'', ''type''), (''action'', ''type''),
      (''amount'', ''quantity''), (''size'', ''quantity''), (''volume'', ''quantity''),
      (''filled_size'', ''quantity''), (''base_amount'', ''quantity''), (''qty'', ''quantity''),
      (''rate'', ''price''), (''unit_price'', ''price''), (''price_per_unit'', ''price''),
      (''fill_price'', ''price''), (''executed_price'', ''price''), (''avg_price'', ''price'')]"

fun rename_columns :: "(string \<times> string) list \<Rightarrow> string list \<Rightarrow> string list" where
  "rename_columns [] cols = cols"
| "rename_columns ((old_name, new_name) # mappings) cols =
     rename_columns mappings
       (if old_name \<in> set cols
        then map (\<lambda>c. if c = old_name then new_name else c) cols
        else cols)"

definition standardize_columns :: "string list \<Rightarrow> string list" where
  "standardize_columns cols = rename_columns column_mappings (map (\<lambda>c. strip (lower c)) cols)"

definition required_columns :: "string list" where
  "required_columns = [''date'', ''symbol'', ''type'', ''quantity'', ''price'']"

definition missing_columns :: "string list \<Rightarrow> string list" where
  "missing_columns cols = filter (\<lambda>col. col \<notin> set cols) required_columns"

subsection \<open>\<^verbatim>\<open>_clean_data\<close>\<close>

text \<open>The five cells of a row that the Normalizer works on.\<close>

record raw_row =
  x_date :: cell
  x_symbol :: cell
  x_type :: cell
  x_quantity :: cell
  x_price :: cell

definition cell_at :: "string list \<Rightarrow> cell list \<Rightarrow> string \<Rightarrow> cell" where
  "cell_at cols row name = (case map_of (zip cols row) name of Some c \<Rightarrow> c | None \<Rightarrow> None)"

definition raw_row_of :: "string list \<Rightarrow> cell list \<Rightarrow> raw_row" where
  "raw_row_of cols row =
     \<lparr>x_date = cell_at cols row ''date'',
      x_symbol = cell_at cols row ''symbol'',
      x_type = cell_at cols row ''type'',
      x_quantity = cell_at cols row ''quantity'',
      x_price = cell_at cols row ''price''\<rparr>"

text \<open>
  \<^verbatim>\<open>str.replace(r'[/-]USD.*', '', regex=True)\<close> and its two siblings: every match, from a
  slash or hyphen followed by the quote currency up to the end of the line, is removed.
\<close>

function remove_quote :: "string \<Rightarrow> string \<Rightarrow> string" where
  "remove_quote quote [] = []"
| "remove_quote quote (c # cs) =
     (if (c = CHR ''/'' \<or> c = CHR ''-'') \<and> take (length quote) cs = quote
      then remove_quote quote (dropWhile (\<lambda>x. x \<noteq> CHR 0x0A) cs)
      else c # remove_quote quote cs)"
  by pat_completeness auto
termination
  by (relation "measure (\<lambda>(quote, s). length s)")
     (auto simp: length_dropWhile_le less_Suc_eq_le)

definition clean_symbol :: "cell \<Rightarrow> string" where
  "clean_symbol c =
     remove_quote ''EUR'' (remove_quote ''USDT'' (remove_quote ''USD''
       (upper (strip (astype_str c)))))"

definition type_mappings :: "(string \<times> string) list" where
  "type_mappings =
     [(''purchase'', ''buy''), (''bought'', ''buy''), (''acquire'', ''buy''),
      (''deposit'', ''buy''), (''sold'', ''sell''), (''sale'', ''sell''),
      (''dispose'', ''sell''), (''withdrawal'', ''sell'')]"

definition clean_type :: "cell \<Rightarrow> string" where
  "clean_type c =
     (let t = strip (lower (astype_str c))
      in case map_of type_mappings t of Some v \<Rightarrow> v | None \<Rightarrow> t)"

text \<open>
  \<^verbatim>\<open>str.replace(r'[$,\<dots>]', '', regex=True)\<close>: the dollar sign, the comma, and the euro and
  pound signs (three and two bytes in UTF-8) are removed.
\<close>

fun strip_currency :: "string \<Rightarrow> string" where
  "strip_currency (a # b # c # cs) =
     (if a = CHR ''$'' \<or> a = CHR '','' then strip_currency (b # c # cs)
      else if a = CHR 0xE2 \<and> b = CHR 0x82 \<and> c = CHR 0xAC then strip_currency cs
      else if a = CHR 0xC2 \<and> b = CHR 0xA3 then strip_currency (c # cs)
      else a # strip_currency (b # c # cs))"
| "strip_currency [a, b] =
     (if a = CHR ''$'' \<or> a = CHR '','' then strip_currency [b]
      else if a = CHR 0xC2 \<and> b = CHR 0xA3 then []
      else a # strip_currency [b])"
| "strip_currency [a] = (if a = CHR ''$'' \<or> a = CHR '','' then [] else [a])"
| "strip_currency [] = []"

definition clean_number :: "library \<Rightarrow> cell \<Rightarrow> rat option" where
  "clean_number lib c = lib_to_numeric lib (strip_currency (astype_str c))"

text \<open>A row after the cleaning of its values: the date is still a text.\<close>

record clean_row =
  c_date :: string
  c_symbol :: string
  c_type :: string
  c_quantity :: rat
  c_price :: rat

text \<open>
  The cleaned row, or nothing when \<^verbatim>\<open>dropna\<close> removes the row: its date is missing, or its
  quantity or price is not a number.
\<close>

definition clean_row_of :: "library \<Rightarrow> raw_row \<Rightarrow> clean_row option" where
  "clean_row_of lib r =
     (case (x_date r, clean_number lib (x_quantity r), clean_number lib (x_price r)) of
        (Some d, Some q, Some p) \<Rightarrow>
          Some \<lparr>c_date = d, c_symbol = clean_symbol (x_symbol r),
                c_type = clean_type (x_type r), c_quantity = q, c_price = p\<rparr>
      | _ \<Rightarrow> None)"

definition clean_data :: "library \<Rightarrow> raw_row list \<Rightarrow> clean_row list" where
  "clean_data lib df =
     filter (\<lambda>r. c_quantity r > 0 \<and> c_price r > 0) (List.map_filter (clean_row_of lib) df)"

subsection \<open>\<^verbatim>\<open>_parse_dates\<close>\<close>

text \<open>
  The loop over the formats: the first format that parses every value of the column is
  taken; \<^verbatim>\<open>those\<close> is nothing as soon as one value fails, as \<^verbatim>\<open>errors='raise'\<close> raises.
\<close>

fun try_formats :: "library \<Rightarrow> string list \<Rightarrow> string list \<Rightarrow> int list option" where
  "try_formats lib [] col = None"
| "try_formats lib (date_format # formats) col =
     (case those (map (lib_strptime lib date_format) col) of
        Some dates \<Rightarrow> Some dates
      | None \<Rightarrow> try_formats lib formats col)"

definition with_date :: "clean_row \<Rightarrow> int \<Rightarrow> transaction" where
  "with_date r d =
     \<lparr>t_date = d, t_symbol = c_symbol r, t_type = c_type r,
      t_quantity = c_quantity r, t_price = c_price r\<rparr>"

definition parse_dates :: "library \<Rightarrow> clean_row list \<Rightarrow> transaction list option" where
  "parse_dates lib df =
     (case try_formats lib common_date_formats (map c_date df) of
        Some dates \<Rightarrow> Some (map2 with_date df dates)
      | None \<Rightarrow>
          (case lib_to_datetime lib (map c_date df) of
             Some dates \<Rightarrow>
               Some (List.map_filter (\<lambda>(r, d). map_option (with_date r) d) (zip df dates))
           | None \<Rightarrow> None))"

subsection \<open>\<^verbatim>\<open>parse_csv\<close>\<close>

text \<open>
  \<^verbatim>\<open>df.empty\<close> holds when the frame has no row or no column. When the symbol, type,
  quantity or price column occurs more than once after the renaming, \<^verbatim>\<open>df[col]\<close> is a frame
  and not a column, \<^verbatim>\<open>_clean_data\<close> raises on it and \<^verbatim>\<open>parse_csv\<close> catches the exception.
  When only the date column occurs more than once, \<^verbatim>\<open>_clean_data\<close> goes through, and in
  \<^verbatim>\<open>_parse_dates\<close> every call of \<^verbatim>\<open>pd.to_datetime\<close> on the frame \<^verbatim>\<open>df['date']\<close> raises, so
  that the date column counts as not parsed.
\<close>

definition parse_csv :: "library \<Rightarrow> raw_table \<Rightarrow> parse_error + transaction list" where
  "parse_csv lib tbl =
     (if tb_rows tbl = [] \<or> tb_columns tbl = [] then Inl Empty_file
      else
        let cols = standardize_columns (tb_columns tbl)
        in if missing_columns cols \<noteq> [] then Inl (Missing_columns (missing_columns cols))
           else if list_ex (\<lambda>col. count_list cols col \<noteq> 1)
                     [''symbol'', ''type'', ''quantity'', ''price'']
           then Inl Exception
           else if count_list cols ''date'' \<noteq> 1 then Inl Date_unparsed
           else
             (case parse_dates lib (clean_data lib (map (raw_row_of cols) (tb_rows tbl))) of
                None \<Rightarrow> Inl Date_unparsed
              | Some df \<Rightarrow> Inr (lib_sort_values lib df)))"

text \<open>
  The test of \<^verbatim>\<open>main\<close> in \<^verbatim>\<open>app.py\<close> on what \<^verbatim>\<open>parse_csv\<close> returned:
  \<^verbatim>\<open>df is not None and not df.empty\<close>.
\<close>

definition loaded :: "parse_error + transaction list \<Rightarrow> bool" where
  "loaded r = (case r of Inl e \<Rightarrow> False | Inr df \<Rightarrow> df \<noteq> [])"

subsection \<open>A library for the examples\<close>

text \<open>
  The values of the library on the texts of the examples: the numbers and dates of the
  sample of \<^verbatim>\<open>get_sample_csv_format\<close>, which are in the first of the formats, and the numbers
  0 and 100. The examples use no other text.
\<close>

definition sample_numbers :: "(string \<times> rat) list" where
  "sample_numbers =
     [(''0.5'', 1 / 2), (''0.25'', 1 / 4), (''0.3'', 3 / 10),
      (''25000.0'', 25000), (''24500.0'', 24500), (''26000.0'', 26000),
      (''0'', 0), (''100'', 100)]"

definition sample_dates :: "(string \<times> int) list" where
  "sample_dates =
     [(''2023-01-15 10:30:00'', 1673778600000000000),
      (''2023-01-20 14:25:00'', 1674224700000000000),
      (''2023-02-01 09:15:00'', 1675242900000000000)]"

definition sample_library :: library where
  "sample_library =
     \<lparr>lib_to_numeric = map_of sample_numbers,
      lib_strptime = (\<lambda>date_format s.
         if date_format = ''%Y-%m-%d %H:%M:%S'' then map_of sample_dates s else None),
      lib_to_datetime = (\<lambda>col. Some (map (map_of sample_dates) col)),
      lib_sort_values = sort_key t_date\<rparr>"

definition sample_table :: raw_table where
  "sample_table =
     \<lparr>tb_columns = [''date'', ''symbol'', ''type'', ''quantity'', ''price''],
      tb_rows =
        [[Some ''2023-01-15 10:30:00'', Some ''BTC'', Some ''buy'', Some ''0.5'', Some ''25000.0''],
         [Some ''2023-01-20 14:25:00'', Some ''BTC'', Some ''buy'', Some ''0.25'', Some ''24500.0''],
         [Some ''2023-02-01 09:15:00'', Some ''BTC'', Some ''sell'', Some ''0.3'', Some ''26000.0'']]\<rparr>"

definition zero_quantity_table :: raw_table where
  "zero_quantity_table =
     \<lparr>tb_columns = [''Date'', ''Coin'', ''Side'', ''Size'', ''Rate''],
      tb_rows =
        [[Some ''2023-01-15 10:30:00'', Some ''BTC'', Some ''buy'', Some ''0'', Some ''100'']]\<rparr>"

definition duplicate_date_table :: raw_table where
  "duplicate_date_table =
     \<lparr>tb_columns = [''Date'', ''Timestamp'', ''Coin'', ''Side'', ''Size'', ''Rate''],
      tb_rows =
        [[Some ''2023-01-15 10:30:00'', Some ''2023-01-15 10:30:00'', Some ''BTC'',
          Some ''buy'', Some ''0'', Some ''100'']]\<rparr>"

definition header_only_table :: raw_table where
  "header_only_table =
     \<lparr>tb_columns = [''date'', ''symbol'', ''type'', ''quantity'', ''price''], tb_rows = []\<rparr>"

section \<open>Auxiliary notions of the proofs\<close>

text \<open>The two gain totals of a sale are the sums of the gains of its matches, by class.\<close>

definition gains_ok :: "sale_results \<Rightarrow> bool" where
  "gains_ok res \<longleftrightarrow>
     s_short_term_gain res =
       sum_list (map m_gain_loss (filter (\<lambda>m. m_term_type m = Short_term) (s_transactions_detail res))) \<and>
     s_long_term_gain res =
       sum_list (map m_gain_loss (filter (\<lambda>m. m_term_type m = Long_term) (s_transactions_detail res)))"

text \<open>The sum of the gains of the matches of one class.\<close>

definition class_gain :: "term_type \<Rightarrow> match_record list \<Rightarrow> rat" where
  "class_gain c ms = sum_list (map m_gain_loss (filter (\<lambda>m. m_term_type m = c) ms))"

text \<open>The holding period of a match and its class agree with its two dates.\<close>

definition match_ok :: "match_record \<Rightarrow> bool" where
  "match_ok m \<longleftrightarrow>
     m_holding_period_days m = days (m_sale_date m - m_purchase_date m) \<and>
     (m_term_type m = Long_term \<longleftrightarrow> 365 \<le> m_holding_period_days m) \<and>
     (m_term_type m = Short_term \<longleftrightarrow> m_holding_period_days m < 365)"

text \<open>The totals of a symbol and of a report are the sums of the gains of their matches.\<close>

definition y_gains_ok :: "symbol_results \<Rightarrow> bool" where
  "y_gains_ok res \<longleftrightarrow>
     y_short_term_gain res = class_gain Short_term (y_transactions_detail res) \<and>
     y_long_term_gain res = class_gain Long_term (y_transactions_detail res)"

definition r_gains_ok :: "tax_report \<Rightarrow> bool" where
  "r_gains_ok res \<longleftrightarrow>
     short_term_gain res = class_gain Short_term (transactions_detail res) \<and>
     long_term_gain res = class_gain Long_term (transactions_detail res)"

text \<open>The frame of one symbol, as \<^verbatim>\<open>calculate_fifo_taxes\<close> passes it on.\<close>

definition symbol_frame :: "sort_values \<Rightarrow> transaction list \<Rightarrow> string \<Rightarrow> transaction list" where
  "symbol_frame sort_by_date df symbol = sort_by_date (filter (\<lambda>t. t_symbol t = symbol) df)"

text \<open>The relation between the cost basis, the quantity and the unit price of a lot and of
  a holding.\<close>

definition lot_ok :: "lot \<Rightarrow> bool" where
  "lot_ok l \<longleftrightarrow> l_cost_basis l = l_quantity l * l_price l"

definition holding_ok :: "holding \<Rightarrow> bool" where
  "holding_ok h \<longleftrightarrow> h_total_cost_basis h = h_quantity h * h_avg_cost h \<and> 0 < h_quantity h"

text \<open>The match that consumes a whole lot.\<close>

definition full_match :: "string \<Rightarrow> int \<Rightarrow> rat \<Rightarrow> lot \<Rightarrow> match_record" where
  "full_match symbol sale_date sale_price l =
     make_match symbol sale_date sale_price l (l_quantity l) (l_cost_basis l)"

text \<open>
  The two loops once more, with a tag carried beside every lot and copied beside every
  match made from it. A lot is tagged by the position, in the symbol's frame, of the buy
  that created it. The tags decide nothing: with the tags erased these are the loops above
  (lemmas \<open>sale_loop_tagged_erase\<close> and \<open>symbol_loop_tagged_erase\<close>).
\<close>

function sale_loop_tagged ::
  "string \<Rightarrow> int \<Rightarrow> rat \<Rightarrow> (nat \<times> lot) list \<Rightarrow> rat \<Rightarrow> (nat \<times> match_record) list
     \<Rightarrow> (nat \<times> match_record) list \<times> (nat \<times> lot) list" where
  "sale_loop_tagged symbol sale_date sale_price [] remaining_to_sell matches = (matches, [])"
| "sale_loop_tagged symbol sale_date sale_price ((i, oldest_lot) # rest) remaining_to_sell matches =
     (if remaining_to_sell > 0 then
        if l_quantity oldest_lot \<le> remaining_to_sell then
          sale_loop_tagged symbol sale_date sale_price rest
            (remaining_to_sell - l_quantity oldest_lot)
            (matches @
               [(i, make_match symbol sale_date sale_price oldest_lot
                      (l_quantity oldest_lot) (l_cost_basis oldest_lot))])
        else
          sale_loop_tagged symbol sale_date sale_price
            ((i, oldest_lot
               \<lparr>l_quantity := l_quantity oldest_lot - remaining_to_sell,
                l_cost_basis := l_cost_basis oldest_lot
                  - (l_cost_basis oldest_lot / l_quantity oldest_lot) * remaining_to_sell\<rparr>)
             # rest)
            (remaining_to_sell - remaining_to_sell)
            (matches @
               [(i, make_match symbol sale_date sale_price oldest_lot
                      remaining_to_sell
                      ((l_cost_basis oldest_lot / l_quantity oldest_lot) * remaining_to_sell))])
      else (matches, (i, oldest_lot) # rest))"
  by pat_completeness auto
termination
  by (relation "measure (\<lambda>(symbol, sale_date, sale_price, fifo_queue, remaining_to_sell, matches).
        2 * length fifo_queue + (if remaining_to_sell > 0 then 1 else 0))") auto

fun symbol_loop_tagged ::
  "string \<Rightarrow> transaction list \<Rightarrow> nat \<Rightarrow> (nat \<times> lot) list \<Rightarrow> (nat \<times> match_record) list
     \<Rightarrow> (nat \<times> match_record) list \<times> (nat \<times> lot) list" where
  "symbol_loop_tagged symbol [] i fifo_queue matches = (matches, fifo_queue)"
| "symbol_loop_tagged symbol (transaction # rows) i fifo_queue matches =
     (if lower (t_type transaction) = ''buy'' then
        symbol_loop_tagged symbol rows (Suc i)
          (fifo_queue @ [(i, new_lot symbol transaction)]) matches
      else if lower (t_type transaction) = ''sell'' then
        (case sale_loop_tagged symbol (t_date transaction) (t_price transaction) fifo_queue
                (t_quantity transaction) [] of
           (sale_matches, fifo_queue') \<Rightarrow>
             symbol_loop_tagged symbol rows (Suc i) fifo_queue' (matches @ sale_matches))
      else symbol_loop_tagged symbol rows (Suc i) fifo_queue matches)"

text \<open>
  The cost basis matched from the lot of tag \<open>k\<close>, the cost basis that this lot still has in
  the queue, and the cost basis that the buy at position \<open>k\<close> gave it.
\<close>

definition matched_cost :: "nat \<Rightarrow> (nat \<times> match_record) list \<Rightarrow> rat" where
  "matched_cost k matches =
     sum_list (map (\<lambda>x. m_cost_basis (snd x)) (filter (\<lambda>x. fst x = k) matches))"

definition queued_cost :: "nat \<Rightarrow> (nat \<times> lot) list \<Rightarrow> rat" where
  "queued_cost k fifo_queue =
     sum_list (map (\<lambda>x. l_cost_basis (snd x)) (filter (\<lambda>x. fst x = k) fifo_queue))"

fun bought_cost :: "nat \<Rightarrow> nat \<Rightarrow> transaction list \<Rightarrow> rat" where
  "bought_cost k i [] = 0"
| "bought_cost k i (t # rows) =
     (if i = k \<and> lower (t_type t) = ''buy'' then t_quantity t * t_price t else 0)
     + bought_cost k (Suc i) rows"


text \<open>The rows that \<^verbatim>\<open>_validate_input\<close> keeps in its local frame.\<close>

definition in_policy :: "transaction \<Rightarrow> bool" where
  "in_policy t \<longleftrightarrow> valid_type t \<and> positive_values t"

section \<open>Example data\<close>

text \<open>
  The sample of \<^verbatim>\<open>get_sample_csv_format\<close>: 0.5 BTC bought at 25000 on 2023-01-15 10:30:00,
  0.25 BTC bought at 24500 on 2023-01-20 14:25:00, and a sale on 2023-02-01 09:15:00.
\<close>

definition sample_lot1 :: lot where
  "sample_lot1 = \<lparr>l_symbol = ''BTC'', l_date = 1673778600000000000,
     l_quantity = 1 / 2, l_price = 25000, l_cost_basis = 12500\<rparr>"

definition sample_lot2 :: lot where
  "sample_lot2 = \<lparr>l_symbol = ''BTC'', l_date = 1674224700000000000,
     l_quantity = 1 / 4, l_price = 24500, l_cost_basis = 6125\<rparr>"

definition sample_sale_date :: int where
  "sample_sale_date = 1675242900000000000"

text \<open>
  One buy at time 0 and two sells, one nanosecond before 365 days have passed and exactly
  365 days later.
\<close>

definition boundary_df :: "transaction list" where
  "boundary_df =
     [\<lparr>t_date = 0, t_symbol = ''BTC'', t_type = ''buy'', t_quantity = 2, t_price = 100\<rparr>,
      \<lparr>t_date = 31535999999999999, t_symbol = ''BTC'', t_type = ''sell'', t_quantity = 1, t_price = 150\<rparr>,
      \<lparr>t_date = 31536000000000000, t_symbol = ''BTC'', t_type = ''Sell'', t_quantity = 1, t_price = 150\<rparr>]"

text \<open>
  A short-term loss with a long-term gain, and a short-term gain with a long-term loss:
  sells 10 days and 400 days after the buy.
\<close>

definition short_loss_df :: "transaction list" where
  "short_loss_df =
     [\<lparr>t_date = 0, t_symbol = ''BTC'', t_type = ''buy'', t_quantity = 2, t_price = 100\<rparr>,
      \<lparr>t_date = 864000000000000, t_symbol = ''BTC'', t_type = ''sell'', t_quantity = 1, t_price = 50\<rparr>,
      \<lparr>t_date = 34560000000000000, t_symbol = ''BTC'', t_type = ''sell'', t_quantity = 1, t_price = 200\<rparr>]"

definition long_loss_df :: "transaction list" where
  "long_loss_df =
     [\<lparr>t_date = 0, t_symbol = ''BTC'', t_type = ''buy'', t_quantity = 2, t_price = 100\<rparr>,
      \<lparr>t_date = 864000000000000, t_symbol = ''BTC'', t_type = ''sell'', t_quantity = 1, t_price = 200\<rparr>,
      \<lparr>t_date = 34560000000000000, t_symbol = ''BTC'', t_type = ''sell'', t_quantity = 1, t_price = 50\<rparr>]"

text \<open>The three rows of the sample, as a frame of transactions.\<close>

definition sample_df :: "transaction list" where
  "sample_df =
     [\<lparr>t_date = 1673778600000000000, t_symbol = ''BTC'', t_type = ''buy'',
       t_quantity = 1 / 2, t_price = 25000\<rparr>,
      \<lparr>t_date = 1674224700000000000, t_symbol = ''BTC'', t_type = ''buy'',
       t_quantity = 1 / 4, t_price = 24500\<rparr>,
      \<lparr>t_date = 1675242900000000000, t_symbol = ''BTC'', t_type = ''sell'',
       t_quantity = 3 / 10, t_price = 26000\<rparr>]"

text \<open>An unsorted frame of two symbols: the sell of BTC comes first and is dated last.\<close>

definition fifo_df :: "transaction list" where
  "fifo_df =
     [\<lparr>t_date = 2592000000000000, t_symbol = ''BTC'', t_type = ''sell'',
       t_quantity = 3 / 4, t_price = 300\<rparr>,
      \<lparr>t_date = 0, t_symbol = ''BTC'', t_type = ''buy'', t_quantity = 1 / 2, t_price = 100\<rparr>,
      \<lparr>t_date = 432000000000000, t_symbol = ''ETH'', t_type = ''buy'',
       t_quantity = 2, t_price = 10\<rparr>,
      \<lparr>t_date = 864000000000000, t_symbol = ''BTC'', t_type = ''buy'',
       t_quantity = 1 / 2, t_price = 200\<rparr>,
      \<lparr>t_date = 1728000000000000, t_symbol = ''ETH'', t_type = ''sell'',
       t_quantity = 1, t_price = 20\<rparr>]"

text \<open>The sample with a second sell, which uses up the first lot.\<close>

definition conserve_df :: "transaction list" where
  "conserve_df =
     [\<lparr>t_date = 1673778600000000000, t_symbol = ''BTC'', t_type = ''buy'',
       t_quantity = 1 / 2, t_price = 25000\<rparr>,
      \<lparr>t_date = 1674224700000000000, t_symbol = ''BTC'', t_type = ''buy'',
       t_quantity = 1 / 4, t_price = 24500\<rparr>,
      \<lparr>t_date = 1675242900000000000, t_symbol = ''BTC'', t_type = ''sell'',
       t_quantity = 3 / 10, t_price = 26000\<rparr>,
      \<lparr>t_date = 1675329300000000000, t_symbol = ''BTC'', t_type = ''sell'',
       t_quantity = 3 / 10, t_price = 27000\<rparr>]"

text \<open>A buy at price 0 followed by a sell.\<close>

definition zero_price_df :: "transaction list" where
  "zero_price_df =
     [\<lparr>t_date = 1673778600000000000, t_symbol = ''BTC'', t_type = ''buy'',
       t_quantity = 1, t_price = 0\<rparr>,
      \<lparr>t_date = 1675242900000000000, t_symbol = ''BTC'', t_type = ''sell'',
       t_quantity = 1, t_price = 10\<rparr>]"



section \<open>The loop of \<^verbatim>\<open>_process_sale\<close>\<close>



lemma sale_loop_stop:
  "\<not> 0 < r \<Longrightarrow> sale_loop sy sd sp q r res = (res, q)"
  by (cases q) simp_all

lemma sale_loop_full:
  "0 < r \<Longrightarrow> l_quantity l \<le> r \<Longrightarrow>
   sale_loop sy sd sp (l # rest) r res =
     sale_loop sy sd sp rest (r - l_quantity l)
       (add_match (make_match sy sd sp l (l_quantity l) (l_cost_basis l)) res)"
  by simp

lemma sale_loop_partial:
  "0 < r \<Longrightarrow> r < l_quantity l \<Longrightarrow>
   sale_loop sy sd sp (l # rest) r res =
     (add_match (make_match sy sd sp l r ((l_cost_basis l / l_quantity l) * r)) res,
      l\<lparr>l_quantity := l_quantity l - r,
        l_cost_basis := l_cost_basis l - (l_cost_basis l / l_quantity l) * r\<rparr> # rest)"
  by (simp add: sale_loop_stop)

declare sale_loop.simps(2) [simp del]

lemma add_match_detail [simp]:
  "s_transactions_detail (add_match m res) = s_transactions_detail res @ [m]"
  by (simp add: add_match_def)

lemma sale_loop_queue:
  "snd (sale_loop sy sd sp q r res) = snd (sale_loop sy sd sp q r res')"
proof (induction q arbitrary: r res res')
  case Nil show ?case by simp
next
  case (Cons l rest)
  show ?case
  proof (cases "0 < r")
    case False then show ?thesis by (simp add: sale_loop_stop)
  next
    case True
    show ?thesis
    proof (cases "l_quantity l \<le> r")
      case True with \<open>0 < r\<close> show ?thesis
        using Cons.IH by (simp only: sale_loop_full)
    next
      case False with \<open>0 < r\<close> show ?thesis
        by (simp add: sale_loop_partial)
    qed
  qed
qed

lemma sale_loop_detail:
  "s_transactions_detail (fst (sale_loop sy sd sp q r res)) =
   s_transactions_detail res @ s_transactions_detail (fst (sale_loop sy sd sp q r no_sale))"
proof (induction q arbitrary: r res)
  case Nil show ?case by (simp add: no_sale_def)
next
  case (Cons l rest)
  show ?case
  proof (cases "0 < r")
    case False then show ?thesis by (simp add: sale_loop_stop no_sale_def)
  next
    case True
    show ?thesis
    proof (cases "l_quantity l \<le> r")
      case True
      let ?m = "make_match sy sd sp l (l_quantity l) (l_cost_basis l)"
      have "s_transactions_detail (fst (sale_loop sy sd sp (l # rest) r res)) =
            s_transactions_detail (add_match ?m res) @
            s_transactions_detail (fst (sale_loop sy sd sp rest (r - l_quantity l) no_sale))"
        using True \<open>0 < r\<close> Cons.IH [of "r - l_quantity l" "add_match ?m res"]
        by (simp only: sale_loop_full)
      moreover have "s_transactions_detail (fst (sale_loop sy sd sp (l # rest) r no_sale)) =
            s_transactions_detail (add_match ?m no_sale) @
            s_transactions_detail (fst (sale_loop sy sd sp rest (r - l_quantity l) no_sale))"
        using True \<open>0 < r\<close> Cons.IH [of "r - l_quantity l" "add_match ?m no_sale"]
        by (simp only: sale_loop_full)
      ultimately show ?thesis by (simp add: no_sale_def)
    next
      case False with \<open>0 < r\<close> show ?thesis
        by (simp add: sale_loop_partial no_sale_def)
    qed
  qed
qed


lemma gains_ok_no_sale: "gains_ok no_sale"
  by (simp add: gains_ok_def no_sale_def)

lemma gains_ok_add_match: "gains_ok res \<Longrightarrow> gains_ok (add_match m res)"
  by (cases "m_term_type m") (simp_all add: gains_ok_def add_match_def)

lemma sale_loop_invariant:
  assumes "I res" and "\<And>m res'. I res' \<Longrightarrow> I (add_match m res')"
  shows "I (fst (sale_loop sy sd sp q r res))"
  using assms(1)
proof (induction q arbitrary: r res)
  case Nil then show ?case by simp
next
  case (Cons l rest)
  show ?case
  proof (cases "0 < r")
    case False with Cons.prems show ?thesis by (simp add: sale_loop_stop)
  next
    case True
    show ?thesis
    proof (cases "l_quantity l \<le> r")
      case True with \<open>0 < r\<close> show ?thesis
        using Cons.IH Cons.prems assms(2) by (simp add: sale_loop_full)
    next
      case False with \<open>0 < r\<close> show ?thesis
        using Cons.prems assms(2) by (simp add: sale_loop_partial)
    qed
  qed
qed

lemma sale_loop_gains_ok: "gains_ok res \<Longrightarrow> gains_ok (fst (sale_loop sy sd sp q r res))"
  by (rule sale_loop_invariant) (auto intro: gains_ok_add_match)

lemma sale_loop_all:
  assumes "\<forall>m\<in>set (s_transactions_detail res). P m"
    and "\<And>l q c. P (make_match sy sd sp l q c)"
  shows "\<forall>m\<in>set (s_transactions_detail (fst (sale_loop sy sd sp q r res))). P m"
  using assms(1)
proof (induction q arbitrary: r res)
  case Nil then show ?case by simp
next
  case (Cons l rest)
  show ?case
  proof (cases "0 < r")
    case False with Cons.prems show ?thesis by (simp add: sale_loop_stop)
  next
    case True
    show ?thesis
    proof (cases "l_quantity l \<le> r")
      case True
      have "\<forall>m\<in>set (s_transactions_detail
              (add_match (make_match sy sd sp l (l_quantity l) (l_cost_basis l)) res)). P m"
        using Cons.prems assms(2) by simp
      from Cons.IH [OF this] True \<open>0 < r\<close> show ?thesis
        by (simp add: sale_loop_full)
    next
      case False with \<open>0 < r\<close> show ?thesis
        using Cons.prems assms(2) by (simp add: sale_loop_partial)
    qed
  qed
qed

lemma make_match_fields:
  "m_symbol (make_match sy sd sp l q c) = sy"
  "m_sale_date (make_match sy sd sp l q c) = sd"
  "m_purchase_date (make_match sy sd sp l q c) = l_date l"
  "m_quantity (make_match sy sd sp l q c) = q"
  "m_proceeds (make_match sy sd sp l q c) = q * sp"
  "m_cost_basis (make_match sy sd sp l q c) = c"
  "m_gain_loss (make_match sy sd sp l q c) = q * sp - c"
  "m_holding_period_days (make_match sy sd sp l q c) = days (sd - l_date l)"
  "m_term_type (make_match sy sd sp l q c) =
     (if days (sd - l_date l) \<ge> long_term_threshold_days then Long_term else Short_term)"
  by (simp_all add: make_match_def Let_def)


lemma process_sale_full:
  assumes "0 < Q" "l_quantity lot \<le> Q"
  shows "s_transactions_detail (fst (process_sale (lot # rest) symbol sale_date Q P)) =
           make_match symbol sale_date P lot (l_quantity lot) (l_cost_basis lot)
           # s_transactions_detail (fst (process_sale rest symbol sale_date (Q - l_quantity lot) P))"
    and "snd (process_sale (lot # rest) symbol sale_date Q P) =
           snd (process_sale rest symbol sale_date (Q - l_quantity lot) P)"
proof -
  let ?m = "make_match symbol sale_date P lot (l_quantity lot) (l_cost_basis lot)"
  have eq: "sale_loop symbol sale_date P (lot # rest) Q no_sale =
      sale_loop symbol sale_date P rest (Q - l_quantity lot) (add_match ?m no_sale)"
    using assms by (simp add: sale_loop_full)
  show "s_transactions_detail (fst (process_sale (lot # rest) symbol sale_date Q P)) =
           ?m # s_transactions_detail (fst (process_sale rest symbol sale_date (Q - l_quantity lot) P))"
    unfolding process_sale_def eq
    by (subst sale_loop_detail) (simp add: no_sale_def)
  show "snd (process_sale (lot # rest) symbol sale_date Q P) =
           snd (process_sale rest symbol sale_date (Q - l_quantity lot) P)"
    unfolding process_sale_def eq by (rule sale_loop_queue)
qed

lemma process_sale_partial:
  assumes "0 < Q" "Q < l_quantity lot"
  shows "process_sale (lot # rest) symbol sale_date Q P =
    (add_match (make_match symbol sale_date P lot Q ((l_cost_basis lot / l_quantity lot) * Q)) no_sale,
     lot\<lparr>l_quantity := l_quantity lot - Q,
         l_cost_basis := l_cost_basis lot - (l_cost_basis lot / l_quantity lot) * Q\<rparr> # rest)"
  using assms by (simp add: process_sale_def sale_loop_partial)

lemma process_sale_all:
  assumes "\<And>l q c. R (make_match symbol sale_date P l q c)"
  shows "\<forall>m\<in>set (s_transactions_detail (fst (process_sale queue symbol sale_date Q P))). R m"
  unfolding process_sale_def
  by (rule sale_loop_all) (simp_all add: no_sale_def assms)

text \<open>
  C1. A sell of quantity \<open>Q\<close> at price \<open>P\<close> against a queue with the lot \<open>lot\<close> at its front.
  If \<open>Q\<close> is positive and the lot's quantity is at most \<open>Q\<close>, the first match takes the whole
  lot (its quantity and its cost basis), the lot leaves the queue, and the sale goes on with
  the rest of the queue and what is left of \<open>Q\<close>. If \<open>Q\<close> is positive and less than the lot's
  quantity, there is one match, of quantity \<open>Q\<close> and cost basis (cost basis / quantity) times
  \<open>Q\<close>, and the lot stays at the front with its quantity and cost basis lowered by the matched
  amounts. Without a positive \<open>Q\<close>, or on an empty queue, nothing is matched and the queue is
  unchanged. Every match has proceeds = quantity times \<open>P\<close> and gain or loss = proceeds minus
  cost basis.
\<close>

theorem process_sale_front_lot:
  "(0 < Q \<and> l_quantity lot \<le> Q \<longrightarrow>
      (\<exists>m. s_transactions_detail (fst (process_sale (lot # rest) symbol sale_date Q P)) =
             m # s_transactions_detail
                   (fst (process_sale rest symbol sale_date (Q - l_quantity lot) P)) \<and>
           m_quantity m = l_quantity lot \<and>
           m_cost_basis m = l_cost_basis lot \<and>
           m_purchase_date m = l_date lot) \<and>
      snd (process_sale (lot # rest) symbol sale_date Q P) =
        snd (process_sale rest symbol sale_date (Q - l_quantity lot) P)) \<and>
   (0 < Q \<and> Q < l_quantity lot \<longrightarrow>
      (\<exists>m. s_transactions_detail (fst (process_sale (lot # rest) symbol sale_date Q P)) = [m] \<and>
           m_quantity m = Q \<and>
           m_cost_basis m = (l_cost_basis lot / l_quantity lot) * Q \<and>
           m_purchase_date m = l_date lot) \<and>
      snd (process_sale (lot # rest) symbol sale_date Q P) =
        lot\<lparr>l_quantity := l_quantity lot - Q,
            l_cost_basis := l_cost_basis lot - (l_cost_basis lot / l_quantity lot) * Q\<rparr> # rest) \<and>
   (\<not> 0 < Q \<longrightarrow> process_sale (lot # rest) symbol sale_date Q P = (no_sale, lot # rest)) \<and>
   process_sale [] symbol sale_date Q P = (no_sale, []) \<and>
   (\<forall>m\<in>set (s_transactions_detail (fst (process_sale queue symbol sale_date Q P))).
      m_proceeds m = m_quantity m * P \<and> m_gain_loss m = m_proceeds m - m_cost_basis m)"
proof (intro conjI impI)
  assume a: "0 < Q \<and> l_quantity lot \<le> Q"
  then show "\<exists>m. s_transactions_detail (fst (process_sale (lot # rest) symbol sale_date Q P)) =
             m # s_transactions_detail
                   (fst (process_sale rest symbol sale_date (Q - l_quantity lot) P)) \<and>
           m_quantity m = l_quantity lot \<and>
           m_cost_basis m = l_cost_basis lot \<and>
           m_purchase_date m = l_date lot"
    by (simp add: process_sale_full(1) make_match_fields)
  from a show "snd (process_sale (lot # rest) symbol sale_date Q P) =
        snd (process_sale rest symbol sale_date (Q - l_quantity lot) P)"
    by (simp add: process_sale_full(2))
next
  assume a: "0 < Q \<and> Q < l_quantity lot"
  then show "\<exists>m. s_transactions_detail (fst (process_sale (lot # rest) symbol sale_date Q P)) = [m] \<and>
           m_quantity m = Q \<and>
           m_cost_basis m = (l_cost_basis lot / l_quantity lot) * Q \<and>
           m_purchase_date m = l_date lot"
    by (simp add: process_sale_partial no_sale_def make_match_fields)
  from a show "snd (process_sale (lot # rest) symbol sale_date Q P) =
        lot\<lparr>l_quantity := l_quantity lot - Q,
            l_cost_basis := l_cost_basis lot - (l_cost_basis lot / l_quantity lot) * Q\<rparr> # rest"
    by (simp add: process_sale_partial)
next
  assume "\<not> 0 < Q"
  then show "process_sale (lot # rest) symbol sale_date Q P = (no_sale, lot # rest)"
    by (simp add: process_sale_def sale_loop_stop)
next
  show "process_sale [] symbol sale_date Q P = (no_sale, [])"
    by (simp add: process_sale_def)
next
  show "\<forall>m\<in>set (s_transactions_detail (fst (process_sale queue symbol sale_date Q P))).
      m_proceeds m = m_quantity m * P \<and> m_gain_loss m = m_proceeds m - m_cost_basis m"
    by (rule process_sale_all) (simp add: make_match_fields)
qed


theorem process_sale_front_lot_witness:
  "(0 < (3 / 10 :: rat) \<and> (3 / 10 :: rat) < l_quantity sample_lot1) \<and>
   (\<exists>m. s_transactions_detail
          (fst (process_sale (sample_lot1 # [sample_lot2]) ''BTC'' sample_sale_date (3 / 10) 26000)) = [m] \<and>
        m_quantity m = 3 / 10 \<and>
        m_cost_basis m = (l_cost_basis sample_lot1 / l_quantity sample_lot1) * (3 / 10) \<and>
        m_purchase_date m = l_date sample_lot1) \<and>
   (0 < (3 / 5 :: rat) \<and> l_quantity sample_lot1 \<le> (3 / 5 :: rat)) \<and>
   (\<exists>m. s_transactions_detail
          (fst (process_sale (sample_lot1 # [sample_lot2]) ''BTC'' sample_sale_date (3 / 5) 26000)) =
        m # s_transactions_detail
              (fst (process_sale [sample_lot2] ''BTC'' sample_sale_date
                     (3 / 5 - l_quantity sample_lot1) 26000)) \<and>
        m_quantity m = l_quantity sample_lot1 \<and>
        m_cost_basis m = l_cost_basis sample_lot1 \<and>
        m_purchase_date m = l_date sample_lot1) \<and>
   (\<exists>m. m \<in> set (s_transactions_detail
          (fst (process_sale (sample_lot1 # [sample_lot2]) ''BTC'' sample_sale_date (3 / 5) 26000))) \<and>
      m_proceeds m = m_quantity m * 26000 \<and> m_gain_loss m = m_proceeds m - m_cost_basis m)"
proof -
  have partial: "0 < (3 / 10 :: rat) \<and> (3 / 10 :: rat) < l_quantity sample_lot1"
    by (simp add: sample_lot1_def)
  have full: "0 < (3 / 5 :: rat) \<and> l_quantity sample_lot1 \<le> (3 / 5 :: rat)"
    by (simp add: sample_lot1_def)
  note a = process_sale_front_lot [where Q = "3 / 10" and lot = sample_lot1
      and rest = "[sample_lot2]" and symbol = "''BTC''" and sale_date = sample_sale_date
      and P = 26000 and queue = "sample_lot1 # [sample_lot2]"]
  note b = process_sale_front_lot [where Q = "3 / 5" and lot = sample_lot1
      and rest = "[sample_lot2]" and symbol = "''BTC''" and sale_date = sample_sale_date
      and P = 26000 and queue = "sample_lot1 # [sample_lot2]"]
  from b full have "s_transactions_detail
     (fst (process_sale (sample_lot1 # [sample_lot2]) ''BTC'' sample_sale_date (3 / 5) 26000)) \<noteq> []"
    by auto
  then obtain m where "m \<in> set (s_transactions_detail
     (fst (process_sale (sample_lot1 # [sample_lot2]) ''BTC'' sample_sale_date (3 / 5) 26000)))"
    using hd_in_set by blast
  with a b partial full show ?thesis by blast
qed

lemma class_gain_append: "class_gain c (xs @ ys) = class_gain c xs + class_gain c ys"
  by (simp add: class_gain_def)

lemma class_gain_Nil: "class_gain c [] = 0"
  by (simp add: class_gain_def)

lemma gains_ok_class:
  "gains_ok res \<longleftrightarrow>
     s_short_term_gain res = class_gain Short_term (s_transactions_detail res) \<and>
     s_long_term_gain res = class_gain Long_term (s_transactions_detail res)"
  by (simp add: gains_ok_def class_gain_def)

lemma process_sale_gains_ok: "gains_ok (fst (process_sale q sy sd Q P))"
  unfolding process_sale_def by (rule sale_loop_gains_ok) (rule gains_ok_no_sale)

lemma make_match_ok: "match_ok (make_match sy sd sp l q c)"
  by (simp add: match_ok_def make_match_fields long_term_threshold_days_def)

section \<open>The loop of \<^verbatim>\<open>_calculate_symbol_fifo\<close>\<close>

lemma symbol_loop_invariant:
  assumes "I res"
    and "\<And>q sd Q P res'. I res' \<Longrightarrow> I (add_sale (fst (process_sale q symbol sd Q P)) res')"
  shows "I (fst (symbol_loop symbol rows q res))"
  using assms(1)
proof (induction rows arbitrary: q res)
  case Nil then show ?case by simp
next
  case (Cons t rows)
  show ?case
  proof (cases "lower (t_type t) = ''buy''")
    case True then show ?thesis using Cons by simp
  next
    case False
    show ?thesis
    proof (cases "lower (t_type t) = ''sell''")
      case True
      obtain sr q' where p: "process_sale q symbol (t_date t) (t_quantity t) (t_price t) = (sr, q')"
        by (cases "process_sale q symbol (t_date t) (t_quantity t) (t_price t)")
      have "I (add_sale sr res)"
        using assms(2) [OF Cons.prems, of q "t_date t" "t_quantity t" "t_price t"] p by simp
      from Cons.IH [OF this] show ?thesis using True False p by simp
    next
      case False with \<open>lower (t_type t) \<noteq> ''buy''\<close> show ?thesis using Cons by simp
    qed
  qed
qed

lemma symbol_loop_gains: "y_gains_ok res \<Longrightarrow> y_gains_ok (fst (symbol_loop symbol rows q res))"
proof (rule symbol_loop_invariant)
  fix q sd Q P res'
  assume "y_gains_ok res'"
  then show "y_gains_ok (add_sale (fst (process_sale q symbol sd Q P)) res')"
    using process_sale_gains_ok [of q symbol sd Q P]
    by (simp add: y_gains_ok_def gains_ok_class add_sale_def class_gain_append)
qed

lemma symbol_loop_all:
  assumes "\<forall>m\<in>set (y_transactions_detail res). R m"
    and "\<And>sd sp l q c. R (make_match symbol sd sp l q c)"
  shows "\<forall>m\<in>set (y_transactions_detail (fst (symbol_loop symbol rows q res))). R m"
proof (rule symbol_loop_invariant [where I = "\<lambda>res :: symbol_results. \<forall>m\<in>set (y_transactions_detail res). R m"])
  show "\<forall>m\<in>set (y_transactions_detail res). R m" by (rule assms(1))
next
  fix q sd Q P and res' :: symbol_results
  assume "\<forall>m\<in>set (y_transactions_detail res'). R m"
  moreover have "\<forall>m\<in>set (s_transactions_detail (fst (process_sale q symbol sd Q P))). R m"
    by (rule process_sale_all) (rule assms(2))
  ultimately show "\<forall>m\<in>set (y_transactions_detail (add_sale (fst (process_sale q symbol sd Q P)) res')). R m"
    by (auto simp: add_sale_def)
qed

lemma calculate_symbol_fifo_detail:
  "y_transactions_detail (calculate_symbol_fifo symbol rows) =
   y_transactions_detail (fst (symbol_loop symbol rows [] no_symbol_results))"
  "y_short_term_gain (calculate_symbol_fifo symbol rows) =
   y_short_term_gain (fst (symbol_loop symbol rows [] no_symbol_results))"
  "y_long_term_gain (calculate_symbol_fifo symbol rows) =
   y_long_term_gain (fst (symbol_loop symbol rows [] no_symbol_results))"
  "y_remaining_holdings (calculate_symbol_fifo symbol rows) =
   remaining_holdings (snd (symbol_loop symbol rows [] no_symbol_results))"
  by (simp_all add: calculate_symbol_fifo_def split: prod.splits)

lemma calculate_symbol_fifo_gains: "y_gains_ok (calculate_symbol_fifo symbol rows)"
  using symbol_loop_gains [of no_symbol_results symbol rows "[]"]
  by (simp add: y_gains_ok_def calculate_symbol_fifo_detail no_symbol_results_def class_gain_Nil)

lemma calculate_symbol_fifo_all:
  assumes "\<And>sd sp l q c. R (make_match symbol sd sp l q c)"
  shows "\<forall>m\<in>set (y_transactions_detail (calculate_symbol_fifo symbol rows)). R m"
  unfolding calculate_symbol_fifo_detail
  by (rule symbol_loop_all) (simp_all add: no_symbol_results_def assms)

section \<open>The loop over the symbols\<close>

lemma symbols_loop_invariant:
  assumes "I results"
    and "\<And>symbol rows res'. symbol \<in> set symbols \<Longrightarrow> I res' \<Longrightarrow>
           I (add_symbol (calculate_symbol_fifo symbol rows) res')"
  shows "I (symbols_loop sort_by_date df symbols results)"
  using assms
proof (induction symbols arbitrary: results)
  case Nil then show ?case by simp
next
  case (Cons s symbols)
  have "I (add_symbol (calculate_symbol_fifo s (sort_by_date (filter (\<lambda>t. t_symbol t = s) df))) results)"
    using Cons.prems by simp
  from Cons.IH [OF this] Cons.prems(2) show ?case by (simp add: Let_def)
qed

lemma symbols_loop_gains:
  "r_gains_ok results \<Longrightarrow> r_gains_ok (symbols_loop sort_by_date df symbols results)"
proof (rule symbols_loop_invariant)
  fix symbol rows res'
  assume "r_gains_ok res'"
  then show "r_gains_ok (add_symbol (calculate_symbol_fifo symbol rows) res')"
    using calculate_symbol_fifo_gains [of symbol rows]
    by (simp add: r_gains_ok_def y_gains_ok_def add_symbol_def class_gain_append)
qed

lemma symbols_loop_all:
  assumes "\<forall>m\<in>set (transactions_detail results). R m"
    and "\<And>sy sd sp l q c. R (make_match sy sd sp l q c)"
  shows "\<forall>m\<in>set (transactions_detail (symbols_loop sort_by_date df symbols results)). R m"
proof (rule symbols_loop_invariant [where I = "\<lambda>res :: tax_report. \<forall>m\<in>set (transactions_detail res). R m"])
  show "\<forall>m\<in>set (transactions_detail results). R m" by (rule assms(1))
next
  fix symbol rows and res' :: tax_report
  assume "\<forall>m\<in>set (transactions_detail res'). R m"
  moreover have "\<forall>m\<in>set (y_transactions_detail (calculate_symbol_fifo symbol rows)). R m"
    by (rule calculate_symbol_fifo_all) (rule assms(2))
  ultimately show "\<forall>m\<in>set (transactions_detail (add_symbol (calculate_symbol_fifo symbol rows) res')). R m"
    by (auto simp: add_symbol_def)
qed

lemma calculate_fifo_taxes_fields:
  "short_term_gain (calculate_fifo_taxes srt df) =
     short_term_gain (symbols_loop srt df (unique (map t_symbol df)) no_report)"
  "long_term_gain (calculate_fifo_taxes srt df) =
     long_term_gain (symbols_loop srt df (unique (map t_symbol df)) no_report)"
  "transactions_detail (calculate_fifo_taxes srt df) =
     transactions_detail (symbols_loop srt df (unique (map t_symbol df)) no_report)"
  "holdings_summary (calculate_fifo_taxes srt df) =
     holdings_summary (symbols_loop srt df (unique (map t_symbol df)) no_report)"
  by (simp_all add: calculate_fifo_taxes_def Let_def)

text \<open>
  C3. In the report of \<^verbatim>\<open>calculate_fifo_taxes\<close>, every match has as holding period the whole
  days between its purchase date and its sale date, and is long-term exactly when that
  period is at least 365 days, short-term exactly when it is less: 364 days is short-term,
  365 days is long-term. The short-term total of the report is the sum of the gains of its
  short-term matches, the long-term total the sum of the gains of its long-term matches.
\<close>

theorem classification_threshold:
  "(\<forall>m\<in>set (transactions_detail (calculate_fifo_taxes sort_by_date df)).
      m_holding_period_days m = days (m_sale_date m - m_purchase_date m) \<and>
      (m_term_type m = Long_term \<longleftrightarrow> 365 \<le> m_holding_period_days m) \<and>
      (m_term_type m = Short_term \<longleftrightarrow> m_holding_period_days m < 365)) \<and>
   short_term_gain (calculate_fifo_taxes sort_by_date df) =
     sum_list (map m_gain_loss (filter (\<lambda>m. m_term_type m = Short_term)
       (transactions_detail (calculate_fifo_taxes sort_by_date df)))) \<and>
   long_term_gain (calculate_fifo_taxes sort_by_date df) =
     sum_list (map m_gain_loss (filter (\<lambda>m. m_term_type m = Long_term)
       (transactions_detail (calculate_fifo_taxes sort_by_date df))))"
proof (intro conjI)
  have "\<forall>m\<in>set (transactions_detail (calculate_fifo_taxes sort_by_date df)). match_ok m"
    unfolding calculate_fifo_taxes_fields
    by (rule symbols_loop_all) (simp_all add: no_report_def make_match_ok)
  then show "\<forall>m\<in>set (transactions_detail (calculate_fifo_taxes sort_by_date df)).
      m_holding_period_days m = days (m_sale_date m - m_purchase_date m) \<and>
      (m_term_type m = Long_term \<longleftrightarrow> 365 \<le> m_holding_period_days m) \<and>
      (m_term_type m = Short_term \<longleftrightarrow> m_holding_period_days m < 365)"
    by (simp add: match_ok_def)
next
  have g: "r_gains_ok (calculate_fifo_taxes sort_by_date df)"
    using symbols_loop_gains [of no_report sort_by_date df "unique (map t_symbol df)"]
    by (simp add: r_gains_ok_def calculate_fifo_taxes_fields no_report_def class_gain_Nil)
  from g show "short_term_gain (calculate_fifo_taxes sort_by_date df) =
     sum_list (map m_gain_loss (filter (\<lambda>m. m_term_type m = Short_term)
       (transactions_detail (calculate_fifo_taxes sort_by_date df))))"
    by (simp add: r_gains_ok_def class_gain_def)
  from g show "long_term_gain (calculate_fifo_taxes sort_by_date df) =
     sum_list (map m_gain_loss (filter (\<lambda>m. m_term_type m = Long_term)
       (transactions_detail (calculate_fifo_taxes sort_by_date df))))"
    by (simp add: r_gains_ok_def class_gain_def)
qed

lemma lower_buy_sell [simp]:
  "lower ''buy'' = ''buy''" "lower ''sell'' = ''sell''" "lower ''Sell'' = ''sell''"
  by (simp_all add: lower_def lower_char_def)

lemmas eval_defs = calculate_fifo_taxes_def symbols_loop.simps calculate_symbol_fifo_def
  process_sale_def sale_loop.simps make_match_def add_match_def add_sale_def add_symbol_def
  new_lot_def no_sale_def no_symbol_results_def no_report_def remaining_holdings_def
  to_holding_def days_def ns_per_day_def long_term_threshold_days_def
  short_term_tax_rate_def long_term_tax_rate_def Let_def

lemma boundary_eval:
  "transactions_detail (calculate_fifo_taxes (sort_key t_date) boundary_df) =
    [\<lparr>m_symbol = ''BTC'', m_sale_date = 31535999999999999, m_purchase_date = 0,
       m_quantity = 1, m_proceeds = 150, m_cost_basis = 100, m_gain_loss = 50,
       m_holding_period_days = 364, m_term_type = Short_term\<rparr>,
     \<lparr>m_symbol = ''BTC'', m_sale_date = 31536000000000000, m_purchase_date = 0,
       m_quantity = 1, m_proceeds = 150, m_cost_basis = 100, m_gain_loss = 50,
       m_holding_period_days = 365, m_term_type = Long_term\<rparr>]"
  by (simp add: boundary_df_def eval_defs)

theorem classification_threshold_witness:
  "(\<exists>m. m \<in> set (transactions_detail (calculate_fifo_taxes (sort_key t_date) boundary_df)) \<and>
        m_holding_period_days m = 364 \<and> m_term_type m = Short_term) \<and>
   (\<exists>m. m \<in> set (transactions_detail (calculate_fifo_taxes (sort_key t_date) boundary_df)) \<and>
        m_holding_period_days m = 365 \<and> m_term_type m = Long_term)"
proof -
  let ?ms = "transactions_detail (calculate_fifo_taxes (sort_key t_date) boundary_df)"
  note t = classification_threshold [of "sort_key t_date" boundary_df]
  obtain a b where ab: "?ms = [a, b]" "m_holding_period_days a = 364" "m_holding_period_days b = 365"
    using boundary_eval by simp
  from t ab have "m_term_type a = Short_term" by simp
  moreover from t ab have "m_term_type b = Long_term" by simp
  ultimately show ?thesis using ab by auto
qed

section \<open>A sell that the queue does not cover\<close>











section \<open>The estimated tax\<close>

lemma symbols_loop_totals:
  "short_term_gain (symbols_loop srt df syms res) =
     short_term_gain res +
     sum_list (map (\<lambda>s. y_short_term_gain (calculate_symbol_fifo s (symbol_frame srt df s))) syms)"
  "long_term_gain (symbols_loop srt df syms res) =
     long_term_gain res +
     sum_list (map (\<lambda>s. y_long_term_gain (calculate_symbol_fifo s (symbol_frame srt df s))) syms)"
  by (induction syms arbitrary: res) (simp_all add: Let_def add_symbol_def symbol_frame_def)

lemma estimated_tax_eq:
  "estimated_tax (calculate_fifo_taxes srt df) =
     max 0 (short_term_gain (calculate_fifo_taxes srt df)) * (22 / 100) +
     max 0 (long_term_gain (calculate_fifo_taxes srt df)) * (15 / 100)"
  by (simp add: calculate_fifo_taxes_def Let_def short_term_tax_rate_def long_term_tax_rate_def)

text \<open>
  C4. The estimated tax of a report is max(0, short-term total) times 0.22 plus
  max(0, long-term total) times 0.15, where each total is the sum, over the symbols of the
  frame, of that symbol's total. A negative short-term total adds nothing to the tax, which
  is then the long-term part alone, and a negative long-term total adds nothing either; the
  estimated tax is never negative.
\<close>

theorem estimated_tax_formula:
  "estimated_tax (calculate_fifo_taxes sort_by_date df) =
     max 0 (short_term_gain (calculate_fifo_taxes sort_by_date df)) * (22 / 100) +
     max 0 (long_term_gain (calculate_fifo_taxes sort_by_date df)) * (15 / 100) \<and>
   short_term_gain (calculate_fifo_taxes sort_by_date df) =
     sum_list (map (\<lambda>s. y_short_term_gain
                  (calculate_symbol_fifo s (sort_by_date (filter (\<lambda>t. t_symbol t = s) df))))
       (unique (map t_symbol df))) \<and>
   long_term_gain (calculate_fifo_taxes sort_by_date df) =
     sum_list (map (\<lambda>s. y_long_term_gain
                  (calculate_symbol_fifo s (sort_by_date (filter (\<lambda>t. t_symbol t = s) df))))
       (unique (map t_symbol df))) \<and>
   (short_term_gain (calculate_fifo_taxes sort_by_date df) < 0 \<longrightarrow>
      estimated_tax (calculate_fifo_taxes sort_by_date df) =
        max 0 (long_term_gain (calculate_fifo_taxes sort_by_date df)) * (15 / 100)) \<and>
   (long_term_gain (calculate_fifo_taxes sort_by_date df) < 0 \<longrightarrow>
      estimated_tax (calculate_fifo_taxes sort_by_date df) =
        max 0 (short_term_gain (calculate_fifo_taxes sort_by_date df)) * (22 / 100)) \<and>
   0 \<le> estimated_tax (calculate_fifo_taxes sort_by_date df)"
proof -
  let ?R = "calculate_fifo_taxes sort_by_date df"
  note e = estimated_tax_eq [of sort_by_date df]
  have s: "short_term_gain ?R =
     sum_list (map (\<lambda>s. y_short_term_gain
                  (calculate_symbol_fifo s (sort_by_date (filter (\<lambda>t. t_symbol t = s) df))))
       (unique (map t_symbol df)))"
    by (simp add: calculate_fifo_taxes_fields symbols_loop_totals no_report_def symbol_frame_def)
  have l: "long_term_gain ?R =
     sum_list (map (\<lambda>s. y_long_term_gain
                  (calculate_symbol_fifo s (sort_by_date (filter (\<lambda>t. t_symbol t = s) df))))
       (unique (map t_symbol df)))"
    by (simp add: calculate_fifo_taxes_fields symbols_loop_totals no_report_def symbol_frame_def)
  have a: "short_term_gain ?R < 0 \<longrightarrow>
      estimated_tax ?R = max 0 (long_term_gain ?R) * (15 / 100)"
    using e by (simp add: max_def)
  have b: "long_term_gain ?R < 0 \<longrightarrow>
      estimated_tax ?R = max 0 (short_term_gain ?R) * (22 / 100)"
    using e by (simp add: max_def)
  have c: "0 \<le> estimated_tax ?R"
    unfolding e by (intro add_nonneg_nonneg mult_nonneg_nonneg) simp_all
  from e s l a b c show ?thesis by blast
qed

lemma short_loss_eval:
  "short_term_gain (calculate_fifo_taxes (sort_key t_date) short_loss_df) = - 50"
  "long_term_gain (calculate_fifo_taxes (sort_key t_date) short_loss_df) = 100"
  by (simp_all add: short_loss_df_def eval_defs)

lemma long_loss_eval:
  "short_term_gain (calculate_fifo_taxes (sort_key t_date) long_loss_df) = 100"
  "long_term_gain (calculate_fifo_taxes (sort_key t_date) long_loss_df) = - 50"
  by (simp_all add: long_loss_df_def eval_defs)

theorem estimated_tax_formula_witness:
  "short_term_gain (calculate_fifo_taxes (sort_key t_date) short_loss_df) < 0 \<and>
   long_term_gain (calculate_fifo_taxes (sort_key t_date) short_loss_df) = 100 \<and>
   estimated_tax (calculate_fifo_taxes (sort_key t_date) short_loss_df) = 15 \<and>
   long_term_gain (calculate_fifo_taxes (sort_key t_date) long_loss_df) < 0 \<and>
   short_term_gain (calculate_fifo_taxes (sort_key t_date) long_loss_df) = 100 \<and>
   estimated_tax (calculate_fifo_taxes (sort_key t_date) long_loss_df) = 22"
proof -
  note a = estimated_tax_formula [of "sort_key t_date" short_loss_df]
  note b = estimated_tax_formula [of "sort_key t_date" long_loss_df]
  have ha: "short_term_gain (calculate_fifo_taxes (sort_key t_date) short_loss_df) < 0"
    by (simp add: short_loss_eval)
  have hb: "long_term_gain (calculate_fifo_taxes (sort_key t_date) long_loss_df) < 0"
    by (simp add: long_loss_eval)
  from a ha have "estimated_tax (calculate_fifo_taxes (sort_key t_date) short_loss_df) =
      max 0 (long_term_gain (calculate_fifo_taxes (sort_key t_date) short_loss_df)) * (15 / 100)"
    by blast
  then have ta: "estimated_tax (calculate_fifo_taxes (sort_key t_date) short_loss_df) = 15"
    by (simp add: short_loss_eval)
  from b hb have "estimated_tax (calculate_fifo_taxes (sort_key t_date) long_loss_df) =
      max 0 (short_term_gain (calculate_fifo_taxes (sort_key t_date) long_loss_df)) * (22 / 100)"
    by blast
  then have tb: "estimated_tax (calculate_fifo_taxes (sort_key t_date) long_loss_df) = 22"
    by (simp add: long_loss_eval)
  from ha hb ta tb show ?thesis by (simp add: short_loss_eval long_loss_eval)
qed

section \<open>Cost basis of the lots in the queue\<close>

lemma new_lot_ok: "lot_ok (new_lot symbol t)"
  by (simp add: lot_ok_def new_lot_def)

lemma partial_lot_ok:
  assumes "lot_ok l" "0 < r" "r < l_quantity l"
  shows "lot_ok (l\<lparr>l_quantity := l_quantity l - r,
                    l_cost_basis := l_cost_basis l - (l_cost_basis l / l_quantity l) * r\<rparr>)"
proof -
  have "l_quantity l \<noteq> 0" using assms(2,3) by simp
  then show ?thesis using assms(1) by (simp add: lot_ok_def algebra_simps)
qed

lemma sale_loop_lot_ok:
  "\<forall>l\<in>set q. lot_ok l \<Longrightarrow> \<forall>l\<in>set (snd (sale_loop sy sd sp q r res)). lot_ok l"
proof (induction q arbitrary: r res)
  case Nil then show ?case by simp
next
  case (Cons l rest)
  show ?case
  proof (cases "0 < r")
    case False with Cons.prems show ?thesis by (simp add: sale_loop_stop)
  next
    case True
    show ?thesis
    proof (cases "l_quantity l \<le> r")
      case True with \<open>0 < r\<close> show ?thesis
        using Cons.IH Cons.prems by (simp add: sale_loop_full)
    next
      case False with \<open>0 < r\<close> show ?thesis
        using Cons.prems partial_lot_ok [of l r] by (simp add: sale_loop_partial)
    qed
  qed
qed

lemma process_sale_lot_ok:
  "\<forall>l\<in>set q. lot_ok l \<Longrightarrow> \<forall>l\<in>set (snd (process_sale q sy sd Q P)). lot_ok l"
  unfolding process_sale_def by (rule sale_loop_lot_ok)

text \<open>An invariant of the queue is kept by the loop over the rows.\<close>

lemma symbol_loop_queue_invariant:
  assumes "J q"
    and "\<And>q t. J q \<Longrightarrow> J (q @ [new_lot symbol t])"
    and "\<And>q sd Q P. J q \<Longrightarrow> J (snd (process_sale q symbol sd Q P))"
  shows "J (snd (symbol_loop symbol rows q res))"
  using assms(1)
proof (induction rows arbitrary: q res)
  case Nil then show ?case by simp
next
  case (Cons t rows)
  show ?case
  proof (cases "lower (t_type t) = ''buy''")
    case True
    have "J (q @ [new_lot symbol t])" using Cons.prems by (rule assms(2))
    from Cons.IH [OF this] True show ?thesis by simp
  next
    case False
    show ?thesis
    proof (cases "lower (t_type t) = ''sell''")
      case True
      obtain sr q' where p: "process_sale q symbol (t_date t) (t_quantity t) (t_price t) = (sr, q')"
        by (cases "process_sale q symbol (t_date t) (t_quantity t) (t_price t)")
      have "J q'"
        using assms(3) [OF Cons.prems, of "t_date t" "t_quantity t" "t_price t"] p by simp
      from Cons.IH [OF this] show ?thesis using True False p by simp
    next
      case False with \<open>lower (t_type t) \<noteq> ''buy''\<close> show ?thesis using Cons by simp
    qed
  qed
qed

lemma symbol_loop_lot_ok:
  "\<forall>l\<in>set q. lot_ok l \<Longrightarrow> \<forall>l\<in>set (snd (symbol_loop symbol rows q res)). lot_ok l"
  by (rule symbol_loop_queue_invariant [where J = "\<lambda>q. \<forall>l\<in>set q. lot_ok l"])
     (simp_all add: new_lot_ok process_sale_lot_ok)

lemma symbol_loop_append:
  "symbol_loop symbol (xs @ ys) q res =
   symbol_loop symbol ys (snd (symbol_loop symbol xs q res)) (fst (symbol_loop symbol xs q res))"
  by (induction xs arbitrary: q res) (simp_all split: prod.splits)

lemma remaining_holdings_ok:
  "\<forall>l\<in>set q. lot_ok l \<Longrightarrow> \<forall>h\<in>set (remaining_holdings q). holding_ok h"
  by (auto simp: remaining_holdings_def holding_ok_def to_holding_def lot_ok_def)

lemma calculate_symbol_fifo_holdings_ok:
  "\<forall>h\<in>set (y_remaining_holdings (calculate_symbol_fifo symbol rows)). holding_ok h"
  unfolding calculate_symbol_fifo_detail
  by (rule remaining_holdings_ok, rule symbol_loop_lot_ok) simp

lemma calculate_fifo_taxes_holdings_ok:
  "\<forall>h\<in>set (holdings_summary (calculate_fifo_taxes srt df)). holding_ok h"
  unfolding calculate_fifo_taxes_fields
proof (rule symbols_loop_invariant [where I = "\<lambda>res :: tax_report. \<forall>h\<in>set (holdings_summary res). holding_ok h"])
  show "\<forall>h\<in>set (holdings_summary no_report). holding_ok h" by (simp add: no_report_def)
next
  fix symbol rows and res' :: tax_report
  assume "\<forall>h\<in>set (holdings_summary res'). holding_ok h"
  then show "\<forall>h\<in>set (holdings_summary (add_symbol (calculate_symbol_fifo symbol rows) res')). holding_ok h"
    using calculate_symbol_fifo_holdings_ok [of symbol rows] by (auto simp: add_symbol_def)
qed

text \<open>
  C10. A lot is created with cost basis = quantity times price; a sale keeps this relation
  for every lot of the queue it returns, also after a partial consumption; hence it holds
  for every lot of the queue after any number \<open>n\<close> of rows of the symbol's frame. Every
  holding of the report has total cost basis = quantity times average cost, and a positive
  quantity. The relation needs no assumption on the signs of the quantities and prices of
  the rows, so it holds in particular when they are all positive.
\<close>

theorem lot_cost_basis_invariant:
  "l_cost_basis (new_lot symbol t) = l_quantity (new_lot symbol t) * l_price (new_lot symbol t) \<and>
   ((\<forall>l\<in>set queue. l_cost_basis l = l_quantity l * l_price l) \<longrightarrow>
      (\<forall>l\<in>set (snd (process_sale queue symbol sale_date Q P)).
         l_cost_basis l = l_quantity l * l_price l)) \<and>
   (\<forall>l\<in>set (snd (symbol_loop symbol (take n rows) [] results)).
      l_cost_basis l = l_quantity l * l_price l) \<and>
   (\<forall>h\<in>set (holdings_summary (calculate_fifo_taxes sort_by_date df)).
      h_total_cost_basis h = h_quantity h * h_avg_cost h \<and> 0 < h_quantity h)"
proof (intro conjI impI)
  show "l_cost_basis (new_lot symbol t) = l_quantity (new_lot symbol t) * l_price (new_lot symbol t)"
    using new_lot_ok [of symbol t] by (simp add: lot_ok_def)
  show "\<forall>l\<in>set (snd (symbol_loop symbol (take n rows) [] results)).
      l_cost_basis l = l_quantity l * l_price l"
    using symbol_loop_lot_ok [of "[]" symbol "take n rows" results] by (simp add: lot_ok_def)
  show "\<forall>h\<in>set (holdings_summary (calculate_fifo_taxes sort_by_date df)).
      h_total_cost_basis h = h_quantity h * h_avg_cost h \<and> 0 < h_quantity h"
    using calculate_fifo_taxes_holdings_ok [of sort_by_date df] by (simp add: holding_ok_def)
  assume "\<forall>l\<in>set queue. l_cost_basis l = l_quantity l * l_price l"
  then show "\<forall>l\<in>set (snd (process_sale queue symbol sale_date Q P)).
         l_cost_basis l = l_quantity l * l_price l"
    using process_sale_lot_ok [of queue symbol sale_date Q P] by (simp add: lot_ok_def)
qed

lemma sample_eval:
  "holdings_summary (calculate_fifo_taxes (sort_key t_date) sample_df) =
     [\<lparr>h_symbol = ''BTC'', h_quantity = 1 / 5, h_avg_cost = 25000,
       h_total_cost_basis = 5000, h_purchase_date = 1673778600000000000\<rparr>,
      \<lparr>h_symbol = ''BTC'', h_quantity = 1 / 4, h_avg_cost = 24500,
       h_total_cost_basis = 6125, h_purchase_date = 1674224700000000000\<rparr>]"
  "transactions_detail (calculate_fifo_taxes (sort_key t_date) sample_df) =
     [\<lparr>m_symbol = ''BTC'', m_sale_date = 1675242900000000000,
       m_purchase_date = 1673778600000000000, m_quantity = 3 / 10, m_proceeds = 7800,
       m_cost_basis = 7500, m_gain_loss = 300, m_holding_period_days = 16,
       m_term_type = Short_term\<rparr>]"
  "snd (symbol_loop ''BTC'' (take 3 sample_df) [] no_symbol_results) =
     [\<lparr>l_symbol = ''BTC'', l_date = 1673778600000000000, l_quantity = 1 / 5,
       l_price = 25000, l_cost_basis = 5000\<rparr>,
      \<lparr>l_symbol = ''BTC'', l_date = 1674224700000000000, l_quantity = 1 / 4,
       l_price = 24500, l_cost_basis = 6125\<rparr>]"
  by (simp_all add: sample_df_def eval_defs)

theorem lot_cost_basis_invariant_witness:
  "(l_cost_basis sample_lot1 = l_quantity sample_lot1 * l_price sample_lot1 \<and>
    l_cost_basis sample_lot2 = l_quantity sample_lot2 * l_price sample_lot2) \<and>
   (\<exists>l. l \<in> set (snd (process_sale [sample_lot1, sample_lot2] ''BTC'' sample_sale_date (3 / 10) 26000)) \<and>
        l_quantity l = 1 / 5 \<and> l_cost_basis l = l_quantity l * l_price l) \<and>
   (\<exists>l. l \<in> set (snd (symbol_loop ''BTC'' (take 3 sample_df) [] no_symbol_results)) \<and>
        l_quantity l = 1 / 5 \<and> l_cost_basis l = l_quantity l * l_price l) \<and>
   (\<exists>h. h \<in> set (holdings_summary (calculate_fifo_taxes (sort_key t_date) sample_df)) \<and>
        h_quantity h = 1 / 5 \<and> h_avg_cost h = 25000 \<and>
        h_total_cost_basis h = h_quantity h * h_avg_cost h \<and> 0 < h_quantity h)"
proof -
  note t = lot_cost_basis_invariant [where queue = "[sample_lot1, sample_lot2]"
      and symbol = "''BTC''" and sale_date = sample_sale_date and Q = "3 / 10" and P = 26000
      and n = 3 and rows = sample_df and results = no_symbol_results
      and sort_by_date = "sort_key t_date" and df = sample_df]
  have h: "\<forall>l\<in>set [sample_lot1, sample_lot2]. l_cost_basis l = l_quantity l * l_price l"
    by (simp add: sample_lot1_def sample_lot2_def)
  let ?q = "snd (process_sale [sample_lot1, sample_lot2] ''BTC'' sample_sale_date (3 / 10) 26000)"
  have q: "?q = [sample_lot1\<lparr>l_quantity := 1 / 5, l_cost_basis := 5000\<rparr>, sample_lot2]"
    by (simp add: process_sale_partial sample_lot1_def)
  from t h have "\<forall>l\<in>set ?q. l_cost_basis l = l_quantity l * l_price l" by blast
  with q have 1: "\<exists>l. l \<in> set ?q \<and> l_quantity l = 1 / 5 \<and> l_cost_basis l = l_quantity l * l_price l"
    by (intro exI [of _ "sample_lot1\<lparr>l_quantity := 1 / 5, l_cost_basis := 5000\<rparr>"]) simp
  let ?s = "snd (symbol_loop ''BTC'' (take 3 sample_df) [] no_symbol_results)"
  from t have "\<forall>l\<in>set ?s. l_cost_basis l = l_quantity l * l_price l" by blast
  then have 2: "\<exists>l. l \<in> set ?s \<and> l_quantity l = 1 / 5 \<and> l_cost_basis l = l_quantity l * l_price l"
    unfolding sample_eval(3)
    by (intro exI [of _ "\<lparr>l_symbol = ''BTC'', l_date = 1673778600000000000, l_quantity = 1 / 5,
       l_price = 25000, l_cost_basis = 5000\<rparr>"]) simp
  let ?h = "holdings_summary (calculate_fifo_taxes (sort_key t_date) sample_df)"
  from t have "\<forall>h\<in>set ?h. h_total_cost_basis h = h_quantity h * h_avg_cost h \<and> 0 < h_quantity h"
    by blast
  then have 3: "\<exists>h. h \<in> set ?h \<and> h_quantity h = 1 / 5 \<and> h_avg_cost h = 25000 \<and>
        h_total_cost_basis h = h_quantity h * h_avg_cost h \<and> 0 < h_quantity h"
    unfolding sample_eval(1)
    by (intro exI [of _ "\<lparr>h_symbol = ''BTC'', h_quantity = 1 / 5, h_avg_cost = 25000,
       h_total_cost_basis = 5000, h_purchase_date = 1673778600000000000\<rparr>"]) simp
  from h 1 2 3 show ?thesis by simp
qed

section \<open>The order of the matches\<close>

lemma sale_loop_ordered:
  "sorted (map m_purchase_date (s_transactions_detail res) @ map l_date q @ zs) \<Longrightarrow>
   sorted (map m_purchase_date (s_transactions_detail (fst (sale_loop sy sd sp q r res)))
           @ map l_date (snd (sale_loop sy sd sp q r res)) @ zs)"
proof (induction q arbitrary: r res)
  case Nil then show ?case by simp
next
  case (Cons l rest)
  show ?case
  proof (cases "0 < r")
    case False with Cons.prems show ?thesis by (simp add: sale_loop_stop)
  next
    case True
    show ?thesis
    proof (cases "l_quantity l \<le> r")
      case True
      have "sorted (map m_purchase_date (s_transactions_detail
               (add_match (make_match sy sd sp l (l_quantity l) (l_cost_basis l)) res))
             @ map l_date rest @ zs)"
        using Cons.prems by (simp add: make_match_fields)
      from Cons.IH [OF this] True \<open>0 < r\<close> show ?thesis by (simp add: sale_loop_full)
    next
      case False
      with \<open>0 < r\<close> Cons.prems show ?thesis
        by (auto simp: sale_loop_partial make_match_fields sorted_append)
    qed
  qed
qed

lemma process_sale_ordered:
  assumes "sorted (pd @ map l_date q @ zs)"
  shows "sorted (pd @ map m_purchase_date (s_transactions_detail (fst (process_sale q sy sd Q P)))
           @ map l_date (snd (process_sale q sy sd Q P)) @ zs)"
proof -
  have a: "\<forall>x\<in>set pd. \<forall>y\<in>set (map l_date q @ zs). x \<le> y" "sorted pd" "sorted (map l_date q @ zs)"
    using assms by (auto simp: sorted_append)
  let ?ms = "s_transactions_detail (fst (process_sale q sy sd Q P))"
  let ?q = "snd (process_sale q sy sd Q P)"
  have s: "sorted (map m_purchase_date ?ms @ map l_date ?q @ zs)"
    unfolding process_sale_def
    using sale_loop_ordered [of no_sale q zs sy sd P Q] a(3) by (simp add: no_sale_def)
  have sub: "set (map m_purchase_date ?ms) \<subseteq> set (map l_date q)"
    unfolding process_sale_def
  proof -
    have "\<forall>m\<in>set (s_transactions_detail (fst (sale_loop sy sd P q Q res))).
            m_purchase_date m \<in> l_date ` set q \<or> m \<in> set (s_transactions_detail res)" for res
    proof (induction q arbitrary: Q res)
      case Nil show ?case by simp
    next
      case (Cons l rest)
      show ?case
      proof (cases "0 < Q")
        case False then show ?thesis by (simp add: sale_loop_stop)
      next
        case True
        show ?thesis
        proof (cases "l_quantity l \<le> Q")
          case True
          with \<open>0 < Q\<close> Cons.IH [of "Q - l_quantity l"
              "add_match (make_match sy sd P l (l_quantity l) (l_cost_basis l)) res"]
          show ?thesis by (auto simp: sale_loop_full make_match_fields)
        next
          case False with \<open>0 < Q\<close> show ?thesis
            by (auto simp: sale_loop_partial make_match_fields)
        qed
      qed
    qed
    from this [of no_sale]
    show "set (map m_purchase_date (s_transactions_detail (fst (sale_loop sy sd P q Q no_sale))))
            \<subseteq> set (map l_date q)"
      by (auto simp: no_sale_def)
  qed
  have subq: "set (map l_date ?q) \<subseteq> set (map l_date q)"
    unfolding process_sale_def
  proof -
    have "l_date ` set (snd (sale_loop sy sd P q Q res)) \<subseteq> l_date ` set q" for res
    proof (induction q arbitrary: Q res)
      case Nil show ?case by simp
    next
      case (Cons l rest)
      show ?case
      proof (cases "0 < Q")
        case False then show ?thesis by (simp add: sale_loop_stop)
      next
        case True
        show ?thesis
        proof (cases "l_quantity l \<le> Q")
          case True
          with \<open>0 < Q\<close> Cons.IH [of "Q - l_quantity l"
              "add_match (make_match sy sd P l (l_quantity l) (l_cost_basis l)) res"]
          show ?thesis by (auto simp: sale_loop_full)
        next
          case False with \<open>0 < Q\<close> show ?thesis
            by (auto simp: sale_loop_partial)
        qed
      qed
    qed
    then show "set (map l_date (snd (sale_loop sy sd P q Q no_sale))) \<subseteq> set (map l_date q)"
      by simp
  qed
  have "\<forall>x\<in>set pd. \<forall>y\<in>set (map m_purchase_date ?ms @ map l_date ?q @ zs). x \<le> y"
    using a(1) sub subq by auto
  with a(2) s show ?thesis by (simp add: sorted_append)
qed

lemma symbol_loop_ordered:
  "sorted (map m_purchase_date (y_transactions_detail res) @ map l_date q @ map t_date rows) \<Longrightarrow>
   sorted (map m_purchase_date (y_transactions_detail (fst (symbol_loop symbol rows q res))))"
proof (induction rows arbitrary: q res)
  case Nil then show ?case by (simp add: sorted_append)
next
  case (Cons t rows)
  show ?case
  proof (cases "lower (t_type t) = ''buy''")
    case True
    have "sorted (map m_purchase_date (y_transactions_detail res)
            @ map l_date (q @ [new_lot symbol t]) @ map t_date rows)"
      using Cons.prems by (simp add: new_lot_def)
    from Cons.IH [OF this] True show ?thesis by simp
  next
    case False
    have drop: "sorted (map m_purchase_date (y_transactions_detail res) @ map l_date q @ map t_date rows)"
      using Cons.prems by (auto simp: sorted_append)
    show ?thesis
    proof (cases "lower (t_type t) = ''sell''")
      case True
      obtain sr q' where p: "process_sale q symbol (t_date t) (t_quantity t) (t_price t) = (sr, q')"
        by (cases "process_sale q symbol (t_date t) (t_quantity t) (t_price t)")
      have "sorted (map m_purchase_date (y_transactions_detail (add_sale sr res))
              @ map l_date q' @ map t_date rows)"
        using process_sale_ordered [OF drop, of symbol "t_date t" "t_quantity t" "t_price t"] p
        by (simp add: add_sale_def)
      from Cons.IH [OF this] show ?thesis using True False p by simp
    next
      case False with \<open>lower (t_type t) \<noteq> ''buy''\<close> Cons.IH [OF drop] show ?thesis by simp
    qed
  qed
qed

lemma calculate_symbol_fifo_ordered:
  "sorted (map t_date rows) \<Longrightarrow>
   sorted (map m_purchase_date (y_transactions_detail (calculate_symbol_fifo symbol rows)))"
  unfolding calculate_symbol_fifo_detail
  by (rule symbol_loop_ordered) (simp add: no_symbol_results_def)

lemma set_unique [simp]: "set (unique xs) = set xs"
  by (induction xs rule: unique.induct) auto

lemma distinct_unique [simp]: "distinct (unique xs)"
  by (induction xs rule: unique.induct) auto

lemma symbols_loop_detail:
  "transactions_detail (symbols_loop srt df syms res) =
     transactions_detail res @
     concat (map (\<lambda>s. y_transactions_detail (calculate_symbol_fifo s (symbol_frame srt df s))) syms)"
  by (induction syms arbitrary: res) (simp_all add: Let_def add_symbol_def symbol_frame_def)

lemma calculate_symbol_fifo_symbol:
  "\<forall>m\<in>set (y_transactions_detail (calculate_symbol_fifo symbol rows)). m_symbol m = symbol"
  by (rule calculate_symbol_fifo_all) (simp add: make_match_fields)

lemma filter_concat_symbol:
  assumes "distinct syms" and "\<And>s. \<forall>m\<in>set (f s). m_symbol m = s"
  shows "filter (\<lambda>m. m_symbol m = symbol) (concat (map f syms)) =
           (if symbol \<in> set syms then f symbol else [])"
  using assms(1)
proof (induction syms)
  case Nil show ?case by simp
next
  case (Cons s syms)
  have keep: "filter (\<lambda>m. m_symbol m = symbol) (f symbol) = f symbol"
    using assms(2) [of symbol] by (simp add: filter_id_conv)
  have none: "s \<noteq> symbol \<Longrightarrow> filter (\<lambda>m. m_symbol m = symbol) (f s) = []"
    using assms(2) [of s] by (simp add: filter_empty_conv)
  from Cons keep none show ?case by auto
qed

lemma report_symbol_detail:
  "filter (\<lambda>m. m_symbol m = symbol) (transactions_detail (calculate_fifo_taxes srt df)) =
     (if symbol \<in> t_symbol ` set df
      then y_transactions_detail (calculate_symbol_fifo symbol (symbol_frame srt df symbol))
      else [])"
  unfolding calculate_fifo_taxes_fields symbols_loop_detail
  using filter_concat_symbol [of "unique (map t_symbol df)"
      "\<lambda>s. y_transactions_detail (calculate_symbol_fifo s (symbol_frame srt df s))" symbol]
    calculate_symbol_fifo_symbol
  by (simp add: no_report_def)

lemma sale_loop_prefix:
  "\<exists>k\<le>length q.
     (s_transactions_detail (fst (sale_loop sy sd sp q r no_sale)) = map (full_match sy sd sp) (take k q) \<and>
      snd (sale_loop sy sd sp q r no_sale) = drop k q) \<or>
     (k < length q \<and>
      (\<exists>x. 0 < x \<and> x < l_quantity (q ! k) \<and>
         s_transactions_detail (fst (sale_loop sy sd sp q r no_sale)) =
           map (full_match sy sd sp) (take k q)
           @ [make_match sy sd sp (q ! k) x ((l_cost_basis (q ! k) / l_quantity (q ! k)) * x)] \<and>
         snd (sale_loop sy sd sp q r no_sale) =
           (q ! k)\<lparr>l_quantity := l_quantity (q ! k) - x,
                   l_cost_basis := l_cost_basis (q ! k)
                     - (l_cost_basis (q ! k) / l_quantity (q ! k)) * x\<rparr> # drop (Suc k) q))"
proof (induction q arbitrary: r)
  case Nil show ?case by (simp add: no_sale_def)
next
  case (Cons l rest)
  show ?case
  proof (cases "0 < r")
    case False
    then show ?thesis by (intro exI [of _ 0]) (simp add: sale_loop_stop no_sale_def)
  next
    case True
    show ?thesis
    proof (cases "l_quantity l \<le> r")
      case True
      let ?r' = "r - l_quantity l"
      have d: "s_transactions_detail (fst (sale_loop sy sd sp (l # rest) r no_sale)) =
          full_match sy sd sp l # s_transactions_detail (fst (sale_loop sy sd sp rest ?r' no_sale))"
        using True \<open>0 < r\<close>
        by (simp add: sale_loop_full full_match_def)
           (subst sale_loop_detail, simp add: no_sale_def)
      have q: "snd (sale_loop sy sd sp (l # rest) r no_sale) = snd (sale_loop sy sd sp rest ?r' no_sale)"
        using True \<open>0 < r\<close> by (simp add: sale_loop_full) (rule sale_loop_queue)
      from Cons.IH [of ?r'] obtain k where k: "k \<le> length rest"
        "(s_transactions_detail (fst (sale_loop sy sd sp rest ?r' no_sale)) = map (full_match sy sd sp) (take k rest) \<and>
          snd (sale_loop sy sd sp rest ?r' no_sale) = drop k rest) \<or>
         (k < length rest \<and>
          (\<exists>x. 0 < x \<and> x < l_quantity (rest ! k) \<and>
             s_transactions_detail (fst (sale_loop sy sd sp rest ?r' no_sale)) =
               map (full_match sy sd sp) (take k rest)
               @ [make_match sy sd sp (rest ! k) x ((l_cost_basis (rest ! k) / l_quantity (rest ! k)) * x)] \<and>
             snd (sale_loop sy sd sp rest ?r' no_sale) =
               (rest ! k)\<lparr>l_quantity := l_quantity (rest ! k) - x,
                       l_cost_basis := l_cost_basis (rest ! k)
                         - (l_cost_basis (rest ! k) / l_quantity (rest ! k)) * x\<rparr> # drop (Suc k) rest))"
        by blast
      show ?thesis
        by (rule exI [of _ "Suc k"]) (use k in \<open>simp add: d q\<close>)
    next
      case False
      with \<open>0 < r\<close> show ?thesis
        by (intro exI [of _ 0]) (simp add: sale_loop_partial no_sale_def, rule exI [of _ r], simp)
    qed
  qed
qed

lemma process_sale_prefix:
  "\<exists>k\<le>length queue.
     (s_transactions_detail (fst (process_sale queue symbol sale_date Q P)) =
        map (\<lambda>l. make_match symbol sale_date P l (l_quantity l) (l_cost_basis l)) (take k queue) \<and>
      snd (process_sale queue symbol sale_date Q P) = drop k queue) \<or>
     (k < length queue \<and>
      (\<exists>x. 0 < x \<and> x < l_quantity (queue ! k) \<and>
         s_transactions_detail (fst (process_sale queue symbol sale_date Q P)) =
           map (\<lambda>l. make_match symbol sale_date P l (l_quantity l) (l_cost_basis l)) (take k queue)
           @ [make_match symbol sale_date P (queue ! k) x
                ((l_cost_basis (queue ! k) / l_quantity (queue ! k)) * x)] \<and>
         snd (process_sale queue symbol sale_date Q P) =
           (queue ! k)\<lparr>l_quantity := l_quantity (queue ! k) - x,
                       l_cost_basis := l_cost_basis (queue ! k)
                         - (l_cost_basis (queue ! k) / l_quantity (queue ! k)) * x\<rparr>
           # drop (Suc k) queue))"
  using sale_loop_prefix [of queue symbol sale_date P Q]
  unfolding process_sale_def full_match_def .

text \<open>
  C2. Let \<^verbatim>\<open>sort_values\<close> return its rows in ascending order of date. Then, for every frame
  and every symbol, the purchase dates of the matches of that symbol in the report are in
  ascending order (equal dates allowed), in the order in which the matches were emitted.
  Within one sale the matches are taken from the lots of the queue in queue order without
  passing over one: the first \<open>k\<close> lots are matched whole and leave the queue, and at most
  one further match takes a part of the lot that follows them, which stays at the front.
\<close>

theorem fifo_order:
  assumes "\<And>xs. sorted (map t_date (sort_by_date xs))"
  shows
  "sorted (map m_purchase_date
     (filter (\<lambda>m. m_symbol m = symbol)
        (transactions_detail (calculate_fifo_taxes sort_by_date df)))) \<and>
   (\<exists>k\<le>length queue.
     (s_transactions_detail (fst (process_sale queue symbol sale_date Q P)) =
        map (\<lambda>l. make_match symbol sale_date P l (l_quantity l) (l_cost_basis l)) (take k queue) \<and>
      snd (process_sale queue symbol sale_date Q P) = drop k queue) \<or>
     (k < length queue \<and>
      (\<exists>x. 0 < x \<and> x < l_quantity (queue ! k) \<and>
         s_transactions_detail (fst (process_sale queue symbol sale_date Q P)) =
           map (\<lambda>l. make_match symbol sale_date P l (l_quantity l) (l_cost_basis l)) (take k queue)
           @ [make_match symbol sale_date P (queue ! k) x
                ((l_cost_basis (queue ! k) / l_quantity (queue ! k)) * x)] \<and>
         snd (process_sale queue symbol sale_date Q P) =
           (queue ! k)\<lparr>l_quantity := l_quantity (queue ! k) - x,
                       l_cost_basis := l_cost_basis (queue ! k)
                         - (l_cost_basis (queue ! k) / l_quantity (queue ! k)) * x\<rparr>
           # drop (Suc k) queue)))"
proof (rule conjI)
  have "sorted (map t_date (symbol_frame sort_by_date df symbol))"
    unfolding symbol_frame_def by (rule assms)
  then have "sorted (map m_purchase_date (y_transactions_detail
      (calculate_symbol_fifo symbol (symbol_frame sort_by_date df symbol))))"
    by (rule calculate_symbol_fifo_ordered)
  then show "sorted (map m_purchase_date
     (filter (\<lambda>m. m_symbol m = symbol)
        (transactions_detail (calculate_fifo_taxes sort_by_date df))))"
    by (simp add: report_symbol_detail)
qed (rule process_sale_prefix)

lemma fifo_eval:
  "map m_purchase_date (filter (\<lambda>m. m_symbol m = ''BTC'')
     (transactions_detail (calculate_fifo_taxes (sort_key t_date) fifo_df))) =
   [0, 864000000000000]"
  "map m_purchase_date (transactions_detail (calculate_fifo_taxes (sort_key t_date) fifo_df)) =
   [0, 864000000000000, 432000000000000]"
  by (simp_all add: fifo_df_def eval_defs)

theorem fifo_order_witness:
  "sorted (map t_date (sort_key t_date (filter (\<lambda>t. t_symbol t = ''BTC'') fifo_df))) \<and>
   map m_purchase_date (filter (\<lambda>m. m_symbol m = ''BTC'')
     (transactions_detail (calculate_fifo_taxes (sort_key t_date) fifo_df))) =
     [0, 864000000000000] \<and>
   sorted (map m_purchase_date (filter (\<lambda>m. m_symbol m = ''BTC'')
     (transactions_detail (calculate_fifo_taxes (sort_key t_date) fifo_df))))"
proof -
  have h: "\<And>xs :: transaction list. sorted (map t_date (sort_key t_date xs))"
    by (rule sorted_sort_key)
  from fifo_order [of "sort_key t_date" "''BTC''" fifo_df, OF h]
  have "sorted (map m_purchase_date (filter (\<lambda>m. m_symbol m = ''BTC'')
     (transactions_detail (calculate_fifo_taxes (sort_key t_date) fifo_df))))"
    by blast
  with h [of "filter (\<lambda>t. t_symbol t = ''BTC'') fifo_df"] fifo_eval(1) show ?thesis by blast
qed

section \<open>Conservation of the cost basis of a lot\<close>

lemma sale_loop_tagged_stop:
  "\<not> 0 < r \<Longrightarrow> sale_loop_tagged sy sd sp q r ms = (ms, q)"
  by (cases q) auto

lemma sale_loop_tagged_full:
  "0 < r \<Longrightarrow> l_quantity l \<le> r \<Longrightarrow>
   sale_loop_tagged sy sd sp ((i, l) # rest) r ms =
     sale_loop_tagged sy sd sp rest (r - l_quantity l)
       (ms @ [(i, make_match sy sd sp l (l_quantity l) (l_cost_basis l))])"
  by simp

lemma sale_loop_tagged_partial:
  "0 < r \<Longrightarrow> r < l_quantity l \<Longrightarrow>
   sale_loop_tagged sy sd sp ((i, l) # rest) r ms =
     (ms @ [(i, make_match sy sd sp l r ((l_cost_basis l / l_quantity l) * r))],
      (i, l\<lparr>l_quantity := l_quantity l - r,
            l_cost_basis := l_cost_basis l - (l_cost_basis l / l_quantity l) * r\<rparr>) # rest)"
  by (simp add: sale_loop_tagged_stop)

declare sale_loop_tagged.simps(2) [simp del]

lemma sale_loop_tagged_erase:
  "map snd ms = s_transactions_detail res \<Longrightarrow>
   map snd (fst (sale_loop_tagged sy sd sp q r ms)) =
     s_transactions_detail (fst (sale_loop sy sd sp (map snd q) r res)) \<and>
   map snd (snd (sale_loop_tagged sy sd sp q r ms)) = snd (sale_loop sy sd sp (map snd q) r res)"
proof (induction q arbitrary: r ms res)
  case Nil then show ?case by simp
next
  case (Cons x rest)
  obtain i l where x: "x = (i, l)" by (cases x)
  show ?case
  proof (cases "0 < r")
    case False with Cons.prems show ?thesis
      by (simp add: sale_loop_stop sale_loop_tagged_stop)
  next
    case True
    show ?thesis
    proof (cases "l_quantity l \<le> r")
      case True
      let ?m = "make_match sy sd sp l (l_quantity l) (l_cost_basis l)"
      have "map snd (ms @ [(i, ?m)]) = s_transactions_detail (add_match ?m res)"
        using Cons.prems by simp
      from Cons.IH [OF this, of "r - l_quantity l"] True \<open>0 < r\<close> show ?thesis
        by (simp add: x sale_loop_full sale_loop_tagged_full)
    next
      case False with \<open>0 < r\<close> Cons.prems show ?thesis
        by (simp add: x sale_loop_partial sale_loop_tagged_partial)
    qed
  qed
qed

lemma matched_cost_append:
  "matched_cost k (xs @ ys) = matched_cost k xs + matched_cost k ys"
  by (simp add: matched_cost_def)

lemma queued_cost_append:
  "queued_cost k (xs @ ys) = queued_cost k xs + queued_cost k ys"
  by (simp add: queued_cost_def)

lemma sale_loop_tagged_conserves:
  "matched_cost k (fst (sale_loop_tagged sy sd sp q r ms))
     + queued_cost k (snd (sale_loop_tagged sy sd sp q r ms)) =
   matched_cost k ms + queued_cost k q"
proof (induction q arbitrary: r ms)
  case Nil show ?case by simp
next
  case (Cons x rest)
  obtain i l where x: "x = (i, l)" by (cases x)
  show ?case
  proof (cases "0 < r")
    case False then show ?thesis by (simp add: sale_loop_tagged_stop)
  next
    case True
    show ?thesis
    proof (cases "l_quantity l \<le> r")
      case True
      with \<open>0 < r\<close>
        Cons.IH [of "r - l_quantity l" "ms @ [(i, make_match sy sd sp l (l_quantity l) (l_cost_basis l))]"]
      show ?thesis
        by (simp add: x sale_loop_tagged_full matched_cost_def queued_cost_def make_match_fields)
    next
      case False with \<open>0 < r\<close> show ?thesis
        by (simp add: x sale_loop_tagged_partial matched_cost_def queued_cost_def make_match_fields)
    qed
  qed
qed

lemma symbol_loop_tagged_erase:
  "map snd ms = y_transactions_detail res \<Longrightarrow>
   map snd (fst (symbol_loop_tagged symbol rows i q ms)) =
     y_transactions_detail (fst (symbol_loop symbol rows (map snd q) res)) \<and>
   map snd (snd (symbol_loop_tagged symbol rows i q ms)) =
     snd (symbol_loop symbol rows (map snd q) res)"
proof (induction rows arbitrary: i q ms res)
  case Nil then show ?case by simp
next
  case (Cons t rows)
  show ?case
  proof (cases "lower (t_type t) = ''buy''")
    case True
    with Cons.IH [OF Cons.prems, of "Suc i" "q @ [(i, new_lot symbol t)]"] show ?thesis by simp
  next
    case False
    show ?thesis
    proof (cases "lower (t_type t) = ''sell''")
      case True
      obtain sm q' where p: "sale_loop_tagged symbol (t_date t) (t_price t) q (t_quantity t) [] = (sm, q')"
        by (cases "sale_loop_tagged symbol (t_date t) (t_price t) q (t_quantity t) []")
      obtain sr q0 where p0: "process_sale (map snd q) symbol (t_date t) (t_quantity t) (t_price t) = (sr, q0)"
        by (cases "process_sale (map snd q) symbol (t_date t) (t_quantity t) (t_price t)")
      have e: "map snd sm = s_transactions_detail sr" "map snd q' = q0"
        using sale_loop_tagged_erase [of "[]" no_sale symbol "t_date t" "t_price t" q "t_quantity t"]
          p p0 by (simp_all add: process_sale_def no_sale_def)
      have "map snd (ms @ sm) = y_transactions_detail (add_sale sr res)"
        using Cons.prems e(1) by (simp add: add_sale_def)
      from Cons.IH [OF this, of "Suc i" q'] show ?thesis
        using True False p p0 e(2) by simp
    next
      case False
      with \<open>lower (t_type t) \<noteq> ''buy''\<close> Cons.IH [OF Cons.prems, of "Suc i" q] show ?thesis by simp
    qed
  qed
qed

lemma symbol_loop_tagged_conserves:
  "matched_cost k (fst (symbol_loop_tagged symbol rows i q ms))
     + queued_cost k (snd (symbol_loop_tagged symbol rows i q ms)) =
   matched_cost k ms + queued_cost k q + bought_cost k i rows"
proof (induction rows arbitrary: i q ms)
  case Nil show ?case by simp
next
  case (Cons t rows)
  show ?case
  proof (cases "lower (t_type t) = ''buy''")
    case True
    with Cons.IH [of "Suc i" "q @ [(i, new_lot symbol t)]" ms] show ?thesis
      by (simp add: queued_cost_append) (simp add: queued_cost_def new_lot_def)
  next
    case False
    show ?thesis
    proof (cases "lower (t_type t) = ''sell''")
      case True
      obtain sm q' where p: "sale_loop_tagged symbol (t_date t) (t_price t) q (t_quantity t) [] = (sm, q')"
        by (cases "sale_loop_tagged symbol (t_date t) (t_price t) q (t_quantity t) []")
      have "matched_cost k sm + queued_cost k q' = queued_cost k q"
        using sale_loop_tagged_conserves [of k symbol "t_date t" "t_price t" q "t_quantity t" "[]"] p
        by (simp add: matched_cost_def)
      with Cons.IH [of "Suc i" q' "ms @ sm"] True False p show ?thesis
        by (simp add: matched_cost_append)
    next
      case False
      with \<open>lower (t_type t) \<noteq> ''buy''\<close> Cons.IH [of "Suc i" q ms] show ?thesis by simp
    qed
  qed
qed

lemma bought_cost_nth:
  "i \<le> k \<Longrightarrow> k - i < length rows \<Longrightarrow>
   bought_cost k i rows =
     (if lower (t_type (rows ! (k - i))) = ''buy''
      then t_quantity (rows ! (k - i)) * t_price (rows ! (k - i)) else 0)"
proof (induction rows arbitrary: i)
  case Nil then show ?case by simp
next
  case (Cons t rows)
  have later: "k < j \<Longrightarrow> bought_cost k j xs = 0" for j xs
    by (induction xs arbitrary: j) simp_all
  show ?case
  proof (cases "i = k")
    case True then show ?thesis by (simp add: later)
  next
    case False
    with Cons.prems have "Suc i \<le> k" "k - Suc i < length rows" by simp_all
    from Cons.IH [OF this] False Cons.prems show ?thesis
      by (simp add: Suc_diff_Suc)
  qed
qed

lemma queued_cost_absent: "k \<notin> fst ` set q \<Longrightarrow> queued_cost k q = 0"
proof -
  assume "k \<notin> fst ` set q"
  then have "filter (\<lambda>x. fst x = k) q = []" by (auto simp: filter_empty_conv)
  then show ?thesis by (simp add: queued_cost_def)
qed

text \<open>
  C6. Take the rows of a symbol's frame and let the lot of tag \<open>k\<close> be the one created by the
  buy at position \<open>k\<close>; its original cost basis is that row's quantity times its price. The
  tagged matches are the matches of \<^verbatim>\<open>_calculate_symbol_fifo\<close>, each with the tag of the lot it
  consumed. At the end of the frame, the cost bases of the matches that consumed the lot
  \<open>k\<close>, plus what the lot still has in the queue, add up to its original cost basis; when
  the lot is no longer in the queue (it was consumed whole, in any number of partial and full
  matches), the cost bases of its matches alone add up to its original cost basis.
\<close>

theorem cost_basis_conservation:
  "map snd (fst (symbol_loop_tagged symbol rows 0 [] [])) =
     y_transactions_detail (calculate_symbol_fifo symbol rows) \<and>
   l_cost_basis (new_lot symbol (rows ! k)) = t_quantity (rows ! k) * t_price (rows ! k) \<and>
   (k < length rows \<and> lower (t_type (rows ! k)) = ''buy'' \<longrightarrow>
      sum_list (map (\<lambda>x. m_cost_basis (snd x))
         (filter (\<lambda>x. fst x = k) (fst (symbol_loop_tagged symbol rows 0 [] []))))
      + sum_list (map (\<lambda>x. l_cost_basis (snd x))
         (filter (\<lambda>x. fst x = k) (snd (symbol_loop_tagged symbol rows 0 [] []))))
      = l_cost_basis (new_lot symbol (rows ! k))) \<and>
   (k < length rows \<and> lower (t_type (rows ! k)) = ''buy'' \<and>
    k \<notin> fst ` set (snd (symbol_loop_tagged symbol rows 0 [] [])) \<longrightarrow>
      sum_list (map (\<lambda>x. m_cost_basis (snd x))
         (filter (\<lambda>x. fst x = k) (fst (symbol_loop_tagged symbol rows 0 [] []))))
      = l_cost_basis (new_lot symbol (rows ! k)))"
proof (intro conjI impI)
  show "map snd (fst (symbol_loop_tagged symbol rows 0 [] [])) =
     y_transactions_detail (calculate_symbol_fifo symbol rows)"
    using symbol_loop_tagged_erase [of "[]" no_symbol_results symbol rows 0 "[]"]
    by (simp add: calculate_symbol_fifo_detail no_symbol_results_def)
  show c: "l_cost_basis (new_lot symbol (rows ! k)) = t_quantity (rows ! k) * t_price (rows ! k)"
    by (simp add: new_lot_def)
  {
    assume a: "k < length rows \<and> lower (t_type (rows ! k)) = ''buy''"
    then have "bought_cost k 0 rows = t_quantity (rows ! k) * t_price (rows ! k)"
      using bought_cost_nth [of 0 k rows] by simp
    with symbol_loop_tagged_conserves [of k symbol rows 0 "[]" "[]"]
    have "matched_cost k (fst (symbol_loop_tagged symbol rows 0 [] []))
        + queued_cost k (snd (symbol_loop_tagged symbol rows 0 [] []))
        = l_cost_basis (new_lot symbol (rows ! k))"
      by (simp add: c matched_cost_def queued_cost_def)
  }
  note sum = this
  {
    assume a: "k < length rows \<and> lower (t_type (rows ! k)) = ''buy''"
    from sum [OF a]
    show "sum_list (map (\<lambda>x. m_cost_basis (snd x))
         (filter (\<lambda>x. fst x = k) (fst (symbol_loop_tagged symbol rows 0 [] []))))
      + sum_list (map (\<lambda>x. l_cost_basis (snd x))
         (filter (\<lambda>x. fst x = k) (snd (symbol_loop_tagged symbol rows 0 [] []))))
      = l_cost_basis (new_lot symbol (rows ! k))"
      by (simp add: matched_cost_def queued_cost_def)
  }
  {
    assume a: "k < length rows \<and> lower (t_type (rows ! k)) = ''buy'' \<and>
      k \<notin> fst ` set (snd (symbol_loop_tagged symbol rows 0 [] []))"
    then have "queued_cost k (snd (symbol_loop_tagged symbol rows 0 [] [])) = 0"
      by (simp add: queued_cost_absent)
    with sum a
    show "sum_list (map (\<lambda>x. m_cost_basis (snd x))
         (filter (\<lambda>x. fst x = k) (fst (symbol_loop_tagged symbol rows 0 [] []))))
      = l_cost_basis (new_lot symbol (rows ! k))"
      by (simp add: matched_cost_def)
  }
qed

lemma conserve_eval:
  "map (\<lambda>x. (fst x, m_quantity (snd x), m_cost_basis (snd x)))
     (fst (symbol_loop_tagged ''BTC'' conserve_df 0 [] [])) =
   [(0, 3 / 10, 7500), (0, 1 / 5, 5000), (1, 1 / 10, 2450)]"
  "map fst (snd (symbol_loop_tagged ''BTC'' conserve_df 0 [] [])) = [1]"
  "map (\<lambda>x. m_cost_basis (snd x))
     (filter (\<lambda>x. fst x = 0) (fst (symbol_loop_tagged ''BTC'' conserve_df 0 [] []))) =
   [7500, 5000]"
  by (simp_all add: conserve_df_def sale_loop_tagged.simps make_match_def new_lot_def Let_def)

theorem cost_basis_conservation_witness:
  "(0 < length conserve_df \<and> lower (t_type (conserve_df ! 0)) = ''buy'' \<and>
    0 \<notin> fst ` set (snd (symbol_loop_tagged ''BTC'' conserve_df 0 [] []))) \<and>
   map (\<lambda>x. m_cost_basis (snd x))
     (filter (\<lambda>x. fst x = 0) (fst (symbol_loop_tagged ''BTC'' conserve_df 0 [] []))) = [7500, 5000] \<and>
   sum_list (map (\<lambda>x. m_cost_basis (snd x))
     (filter (\<lambda>x. fst x = 0) (fst (symbol_loop_tagged ''BTC'' conserve_df 0 [] [])))) =
     l_cost_basis (new_lot ''BTC'' (conserve_df ! 0)) \<and>
   l_cost_basis (new_lot ''BTC'' (conserve_df ! 0)) = 12500"
proof -
  note t = cost_basis_conservation [of "''BTC''" conserve_df 0]
  have "set (map fst (snd (symbol_loop_tagged ''BTC'' conserve_df 0 [] []))) = {1}"
    unfolding conserve_eval(2) by simp
  then have q: "0 \<notin> fst ` set (snd (symbol_loop_tagged ''BTC'' conserve_df 0 [] []))"
    by simp
  have h: "0 < length conserve_df \<and> lower (t_type (conserve_df ! 0)) = ''buy''"
    by (simp add: conserve_df_def)
  note e = conserve_eval(3)
  have n: "l_cost_basis (new_lot ''BTC'' (conserve_df ! 0)) = 12500"
    by (simp add: conserve_df_def new_lot_def)
  from t h q have "sum_list (map (\<lambda>x. m_cost_basis (snd x))
     (filter (\<lambda>x. fst x = 0) (fst (symbol_loop_tagged ''BTC'' conserve_df 0 [] [])))) =
     l_cost_basis (new_lot ''BTC'' (conserve_df ! 0))"
    by blast
  with h q e n show ?thesis by blast
qed

section \<open>The rows that \<^verbatim>\<open>calculate_taxes\<close> computes on\<close>

lemma zero_price_validate:
  "validate_input zero_price_df"
  "filter in_policy zero_price_df =
     [\<lparr>t_date = 1675242900000000000, t_symbol = ''BTC'', t_type = ''sell'',
       t_quantity = 1, t_price = 10\<rparr>]"
  "validate_input (filter in_policy zero_price_df)"
  by (simp_all add: zero_price_df_def validate_input_def valid_type_def positive_values_def
      in_policy_def Let_def)

text \<open>
  C9. \<^verbatim>\<open>calculate_taxes\<close> should compute on the rows of valid type and positive quantity and
  price only. It does not: \<^verbatim>\<open>_validate_input\<close> filters a local copy of the frame and returns
  a truth value, and \<^verbatim>\<open>calculate_fifo_taxes\<close> receives the frame as it came. On a buy of 1 BTC
  at price 0 followed by a sell of 1 BTC at price 10, the report has one match of cost basis
  0 and a short-term gain of 10, with an estimated tax of 2.2; the report of the in-policy
  rows alone (the sell) has no match and no gain.
\<close>

theorem calculate_taxes_keeps_invalid_rows:
  "map_option (\<lambda>r. (short_term_gain (report r), long_term_gain (report r),
                     estimated_tax (report r),
                     map (\<lambda>m. (m_quantity m, m_cost_basis m, m_gain_loss m))
                       (transactions_detail (report r)),
                     holdings_summary (report r)))
     (calculate_taxes (sort_key t_date) zero_price_df) =
     Some (10, 0, 11 / 5, [(1, 0, 10)], []) \<and>
   map_option (\<lambda>r. (short_term_gain (report r), long_term_gain (report r),
                     estimated_tax (report r),
                     map (\<lambda>m. (m_quantity m, m_cost_basis m, m_gain_loss m))
                       (transactions_detail (report r)),
                     holdings_summary (report r)))
     (calculate_taxes (sort_key t_date) (filter in_policy zero_price_df)) =
     Some (0, 0, 0, [], [])"
proof -
  have a: "calculate_fifo_taxes (sort_key t_date) zero_price_df =
      \<lparr>short_term_gain = 10, long_term_gain = 0, estimated_tax = 11 / 5,
       transactions_detail =
         [\<lparr>m_symbol = ''BTC'', m_sale_date = 1675242900000000000,
           m_purchase_date = 1673778600000000000, m_quantity = 1, m_proceeds = 10,
           m_cost_basis = 0, m_gain_loss = 10, m_holding_period_days = 16,
           m_term_type = Short_term\<rparr>],
       holdings_summary = []\<rparr>"
    by (simp add: zero_price_df_def eval_defs)
  have b: "calculate_fifo_taxes (sort_key t_date) (filter in_policy zero_price_df) =
      \<lparr>short_term_gain = 0, long_term_gain = 0, estimated_tax = 0,
       transactions_detail = [], holdings_summary = []\<rparr>"
    unfolding zero_price_validate(2) by (simp add: eval_defs)
  show ?thesis
    by (simp add: calculate_taxes_def zero_price_validate(1,3) a b)
qed

section \<open>Empty input and empty output of the Normalizer\<close>

lemma parse_dates_Nil: "parse_dates lib [] = Some []"
  by (simp add: parse_dates_def common_date_formats_def)

lemma parse_csv_empty_file:
  "parse_csv lib tbl = Inl Empty_file \<longleftrightarrow> tb_rows tbl = [] \<or> tb_columns tbl = []"
  by (auto simp: parse_csv_def Let_def split: option.splits)

lemma each_once_no_missing:
  assumes "list_all (\<lambda>col. count_list cols col = 1) required_columns"
  shows "missing_columns cols = []"
    and "\<not> list_ex (\<lambda>col. count_list cols col \<noteq> 1) [''symbol'', ''type'', ''quantity'', ''price'']"
    and "count_list cols ''date'' = 1"
proof -
  have "col \<in> set cols" if "count_list cols col = 1" for col
    using that count_list_0_iff [of cols col] by auto
  with assms show "missing_columns cols = []"
    by (auto simp: missing_columns_def required_columns_def filter_empty_conv list_all_iff)
  from assms show "\<not> list_ex (\<lambda>col. count_list cols col \<noteq> 1)
      [''symbol'', ''type'', ''quantity'', ''price'']"
    by (simp add: required_columns_def)
  from assms show "count_list cols ''date'' = 1"
    by (simp add: required_columns_def)
qed

lemma rename_columns_Nil: "rename_columns mappings [] = []"
  by (induction mappings) auto

lemma parse_csv_nothing_left:
  assumes "tb_rows tbl \<noteq> []"
    and "list_all (\<lambda>col. count_list (standardize_columns (tb_columns tbl)) col = 1)
           required_columns"
    and "clean_data lib (map (raw_row_of (standardize_columns (tb_columns tbl))) (tb_rows tbl)) = []"
  shows "parse_csv lib tbl = Inr (lib_sort_values lib [])"
proof -
  have "standardize_columns (tb_columns tbl) \<noteq> []"
    using assms(2) by (auto simp: required_columns_def)
  then have "tb_columns tbl \<noteq> []"
    by (auto simp: standardize_columns_def rename_columns_Nil)
  with assms(1,3) each_once_no_missing [OF assms(2)] show ?thesis
    by (simp add: parse_csv_def Let_def parse_dates_Nil)
qed

lemma parse_csv_bad_columns:
  assumes "tb_rows tbl \<noteq> []" "tb_columns tbl \<noteq> []"
    and "\<not> list_all (\<lambda>col. count_list (standardize_columns (tb_columns tbl)) col = 1)
             required_columns"
  shows "\<exists>e. parse_csv lib tbl = Inl e \<and> e \<noteq> Empty_file"
proof -
  let ?cols = "standardize_columns (tb_columns tbl)"
  show ?thesis
  proof (cases "missing_columns ?cols \<noteq> []")
    case True with assms(1,2) show ?thesis by (simp add: parse_csv_def Let_def)
  next
    case no_missing: False
    show ?thesis
    proof (cases "list_ex (\<lambda>col. count_list ?cols col \<noteq> 1)
        [''symbol'', ''type'', ''quantity'', ''price'']")
      case True with assms(1,2) no_missing show ?thesis by (simp add: parse_csv_def Let_def)
    next
      case False
      with assms(3) have "count_list ?cols ''date'' \<noteq> 1"
        by (auto simp: required_columns_def)
      with assms(1,2) no_missing False show ?thesis by (simp add: parse_csv_def Let_def)
    qed
  qed
qed

lemmas normalizer_defs = parse_csv_def standardize_columns_def column_mappings_def
  missing_columns_def required_columns_def raw_row_of_def cell_at_def clean_data_def
  clean_row_of_def clean_number_def clean_symbol_def clean_type_def type_mappings_def
  astype_str_def strip_def is_space_def upper_def upper_char_def lower_def lower_char_def
  parse_dates_def common_date_formats_def with_date_def sample_library_def
  sample_numbers_def sample_dates_def List.map_filter_def Let_def

lemma zero_quantity_eval:
  "standardize_columns (tb_columns zero_quantity_table) =
     [''date'', ''symbol'', ''type'', ''quantity'', ''price'']"
  "clean_data sample_library
     (map (raw_row_of (standardize_columns (tb_columns zero_quantity_table)))
        (tb_rows zero_quantity_table)) = []"
  "parse_csv sample_library zero_quantity_table = Inr []"
  by (simp_all add: zero_quantity_table_def normalizer_defs)

lemma duplicate_date_eval:
  "standardize_columns (tb_columns duplicate_date_table) =
     [''date'', ''date'', ''symbol'', ''type'', ''quantity'', ''price'']"
  "parse_csv sample_library duplicate_date_table = Inl Date_unparsed"
  by (simp_all add: duplicate_date_table_def normalizer_defs)

lemma sample_table_eval:
  "parse_csv sample_library sample_table =
     Inr [\<lparr>t_date = 1673778600000000000, t_symbol = ''BTC'', t_type = ''buy'',
            t_quantity = 1 / 2, t_price = 25000\<rparr>,
          \<lparr>t_date = 1674224700000000000, t_symbol = ''BTC'', t_type = ''buy'',
            t_quantity = 1 / 4, t_price = 24500\<rparr>,
          \<lparr>t_date = 1675242900000000000, t_symbol = ''BTC'', t_type = ''sell'',
            t_quantity = 3 / 10, t_price = 26000\<rparr>]"
  by (simp add: sample_table_def normalizer_defs)

text \<open>
  C8, as stated, fails on a table whose only row has quantity 0: the table has a row, no row
  is left by the cleaning, and \<^verbatim>\<open>parse_csv\<close> returns the empty sequence of transactions, not
  a failure.
\<close>

theorem empty_after_cleaning_counterexample:
  "tb_rows zero_quantity_table \<noteq> [] \<and>
   clean_data sample_library
     (map (raw_row_of (standardize_columns (tb_columns zero_quantity_table)))
        (tb_rows zero_quantity_table)) = [] \<and>
   parse_csv sample_library zero_quantity_table = Inr [] \<and>
   parse_csv sample_library zero_quantity_table \<noteq> Inl Empty_file"
proof -
  have "tb_rows zero_quantity_table \<noteq> []" by (simp add: zero_quantity_table_def)
  with zero_quantity_eval(2,3) show ?thesis by simp
qed

text \<open>
  C8, amended. \<^verbatim>\<open>parse_csv\<close> fails with the message of the empty file exactly when the frame
  it read has no row (or no column). When the frame has rows, each of the five required
  columns occurs exactly once after the renaming of the column names, no row is left by the
  cleaning and the filtering, and the library's sort of an empty frame is empty, it does not
  fail: it returns the empty sequence. When the frame has rows and a required column is
  missing or occurs more than once, it fails with another message than that of the empty
  file. The test of the caller, \<^verbatim>\<open>df is not None and not df.empty\<close>, rejects both the failure
  of the empty file and the empty sequence.
\<close>

theorem empty_input_results:
  "(parse_csv lib tbl = Inl Empty_file \<longleftrightarrow> tb_rows tbl = [] \<or> tb_columns tbl = []) \<and>
   (tb_rows tbl \<noteq> [] \<and>
    list_all (\<lambda>col. count_list (standardize_columns (tb_columns tbl)) col = 1)
      required_columns \<and>
    clean_data lib (map (raw_row_of (standardize_columns (tb_columns tbl))) (tb_rows tbl)) = [] \<and>
    lib_sort_values lib [] = [] \<longrightarrow>
      parse_csv lib tbl = Inr []) \<and>
   (tb_rows tbl \<noteq> [] \<and> tb_columns tbl \<noteq> [] \<and>
    \<not> list_all (\<lambda>col. count_list (standardize_columns (tb_columns tbl)) col = 1)
        required_columns \<longrightarrow>
      (\<exists>e. parse_csv lib tbl = Inl e \<and> e \<noteq> Empty_file)) \<and>
   (parse_csv lib tbl = Inl Empty_file \<or> parse_csv lib tbl = Inr [] \<longrightarrow>
      \<not> loaded (parse_csv lib tbl))"
proof (intro conjI impI)
  show "parse_csv lib tbl = Inl Empty_file \<longleftrightarrow> tb_rows tbl = [] \<or> tb_columns tbl = []"
    by (rule parse_csv_empty_file)
next
  assume a: "tb_rows tbl \<noteq> [] \<and>
    list_all (\<lambda>col. count_list (standardize_columns (tb_columns tbl)) col = 1)
      required_columns \<and>
    clean_data lib (map (raw_row_of (standardize_columns (tb_columns tbl))) (tb_rows tbl)) = [] \<and>
    lib_sort_values lib [] = []"
  then show "parse_csv lib tbl = Inr []"
    using parse_csv_nothing_left [of tbl lib] by simp
next
  assume "tb_rows tbl \<noteq> [] \<and> tb_columns tbl \<noteq> [] \<and>
    \<not> list_all (\<lambda>col. count_list (standardize_columns (tb_columns tbl)) col = 1)
        required_columns"
  then show "\<exists>e. parse_csv lib tbl = Inl e \<and> e \<noteq> Empty_file"
    using parse_csv_bad_columns [of tbl lib] by blast
next
  assume "parse_csv lib tbl = Inl Empty_file \<or> parse_csv lib tbl = Inr []"
  then show "\<not> loaded (parse_csv lib tbl)"
    by (auto simp: loaded_def)
qed

theorem empty_input_results_witness:
  "(tb_rows zero_quantity_table \<noteq> [] \<and>
    list_all (\<lambda>col. count_list (standardize_columns (tb_columns zero_quantity_table)) col = 1)
      required_columns \<and>
    clean_data sample_library
      (map (raw_row_of (standardize_columns (tb_columns zero_quantity_table)))
         (tb_rows zero_quantity_table)) = [] \<and>
    lib_sort_values sample_library [] = []) \<and>
   parse_csv sample_library zero_quantity_table = Inr [] \<and>
   \<not> loaded (parse_csv sample_library zero_quantity_table) \<and>
   tb_rows header_only_table = [] \<and>
   parse_csv sample_library header_only_table = Inl Empty_file \<and>
   \<not> loaded (parse_csv sample_library header_only_table) \<and>
   (tb_rows duplicate_date_table \<noteq> [] \<and> tb_columns duplicate_date_table \<noteq> [] \<and>
    \<not> list_all (\<lambda>col. count_list (standardize_columns (tb_columns duplicate_date_table)) col = 1)
        required_columns) \<and>
   (\<exists>e. parse_csv sample_library duplicate_date_table = Inl e \<and> e \<noteq> Empty_file) \<and>
   parse_csv sample_library duplicate_date_table = Inl Date_unparsed \<and>
   loaded (parse_csv sample_library sample_table)"
proof -
  note a = empty_input_results [of sample_library zero_quantity_table]
  note b = empty_input_results [of sample_library header_only_table]
  note c = empty_input_results [of sample_library duplicate_date_table]
  have h: "tb_rows zero_quantity_table \<noteq> [] \<and>
    list_all (\<lambda>col. count_list (standardize_columns (tb_columns zero_quantity_table)) col = 1)
      required_columns \<and>
    clean_data sample_library
      (map (raw_row_of (standardize_columns (tb_columns zero_quantity_table)))
         (tb_rows zero_quantity_table)) = [] \<and>
    lib_sort_values sample_library [] = []"
  proof -
    have "tb_rows zero_quantity_table \<noteq> []"
      by (simp add: zero_quantity_table_def)
    moreover have
      "list_all (\<lambda>col. count_list (standardize_columns (tb_columns zero_quantity_table)) col = 1)
          required_columns"
      unfolding zero_quantity_eval(1) by (simp add: required_columns_def)
    moreover have "lib_sort_values sample_library [] = []"
      by (simp add: sample_library_def)
    ultimately show ?thesis using zero_quantity_eval(2) by blast
  qed
  from a h have 1: "parse_csv sample_library zero_quantity_table = Inr []" by blast
  with a have 2: "\<not> loaded (parse_csv sample_library zero_quantity_table)" by blast
  have e: "tb_rows header_only_table = []" by (simp add: header_only_table_def)
  with b have 3: "parse_csv sample_library header_only_table = Inl Empty_file" by blast
  with b have 4: "\<not> loaded (parse_csv sample_library header_only_table)" by blast
  have d: "tb_rows duplicate_date_table \<noteq> [] \<and> tb_columns duplicate_date_table \<noteq> [] \<and>
    \<not> list_all (\<lambda>col. count_list (standardize_columns (tb_columns duplicate_date_table)) col = 1)
        required_columns"
  proof -
    have "tb_rows duplicate_date_table \<noteq> [] \<and> tb_columns duplicate_date_table \<noteq> []"
      by (simp add: duplicate_date_table_def)
    moreover have
      "\<not> list_all (\<lambda>col. count_list (standardize_columns (tb_columns duplicate_date_table)) col = 1)
          required_columns"
      unfolding duplicate_date_eval(1) by (simp add: required_columns_def)
    ultimately show ?thesis by blast
  qed
  from c d have 5: "\<exists>e. parse_csv sample_library duplicate_date_table = Inl e \<and> e \<noteq> Empty_file"
    by blast
  have 6: "loaded (parse_csv sample_library sample_table)"
    by (simp add: sample_table_eval loaded_def)
  from h 1 2 e 3 4 d 5 6 duplicate_date_eval(2) show ?thesis by blast
qed

section \<open>The order of the Normalizer's output\<close>

text \<open>
  What \<^verbatim>\<open>parse_csv\<close> returns is the result of \<^verbatim>\<open>sort_values('date')\<close> on the rows that are
  left, so it is in ascending order of date whenever the library's sort returns its rows
  so. The order of rows of equal date is the one the library's default sorting algorithm
  gives them; the source does not choose it.
\<close>

lemma parse_csv_sorted:
  assumes "\<And>xs. sorted (map t_date (lib_sort_values lib xs))"
    and "parse_csv lib tbl = Inr df"
  shows "sorted (map t_date df)"
  using assms
  by (auto simp: parse_csv_def Let_def split: if_splits option.splits)

end
